theory Spec2Isabelle
  imports Complex_Main
begin

section \<open>Python values\<close>

text \<open>
  Python integers are \<open>int\<close>; counts and list positions that are never negative are
  \<open>nat\<close>. Every raise of the source is a value \<open>Inl e\<close>. In the environment and the agent,
  Python and numpy floats are idealised as \<open>real\<close>: rounding, infinities and NaN are
  outside that model. In the analysis of an A/B test, whose result depends on rounding
  and on \<open>inf\<close> and \<open>nan\<close>, the floats are values of an abstract type and their operations
  are parameters.
\<close>

datatype py_error =
  IndexError | ZeroDivisionError | ValueError | RuntimeError | KeyError

definition py_index :: "'a list \<Rightarrow> int \<Rightarrow> py_error + 'a" where
  \<comment> \<open>\<open>xs[i]\<close> on a Python list: the positions \<open>-len(xs) .. -1\<close> count from the end,
      any position outside \<open>-len(xs) .. len(xs) - 1\<close> raises.\<close>
  "py_index xs i =
     (if 0 \<le> i \<and> i < int (length xs) then Inr (xs ! nat i)
      else if i < 0 \<and> - int (length xs) \<le> i then Inr (xs ! nat (int (length xs) + i))
      else Inl IndexError)"

definition clip :: "real \<Rightarrow> real \<Rightarrow> real \<Rightarrow> real" where
  \<comment> \<open>\<open>np.clip(x, lo, hi)\<close>, that is \<open>minimum(maximum(x, lo), hi)\<close>.\<close>
  "clip x lo hi = min (max x lo) hi"

definition bind_err :: "py_error + 'a \<Rightarrow> ('a \<Rightarrow> py_error + 'b) \<Rightarrow> py_error + 'b" where
  \<comment> \<open>sequencing: the first raise ends the computation\<close>
  "bind_err r f = (case r of Inl e \<Rightarrow> Inl e | Inr x \<Rightarrow> f x)"

fun collect_err :: "('a \<Rightarrow> py_error + 'b) \<Rightarrow> 'a list \<Rightarrow> py_error + 'b list" where
  \<comment> \<open>a loop over a list that builds a list, ended by the first raise\<close>
  "collect_err f [] = Inr []"
| "collect_err f (x # xs) =
     (case f x of
        Inl e \<Rightarrow> Inl e
      | Inr y \<Rightarrow> (case collect_err f xs of Inl e \<Rightarrow> Inl e | Inr ys \<Rightarrow> Inr (y # ys)))"

definition py_int :: "real \<Rightarrow> int" where
  \<comment> \<open>\<open>int(x)\<close> on a float: truncation toward zero.\<close>
  "py_int x = (if 0 \<le> x then \<lfloor>x\<rfloor> else \<lceil>x\<rceil>)"

section \<open>ran\_environment.py: the action encoding\<close>

record changes =
  ch_power :: int
  ch_tilt :: int
  ch_handover :: int

definition power_changes :: "int list" where
  "power_changes = [-3, 0, 3]"

definition tilt_changes :: "int list" where
  "tilt_changes = [-2, 0, 2]"

definition handover_changes :: "int list" where
  "handover_changes = [-5, 0, 5]"

definition decode_action :: "int \<Rightarrow> py_error + changes" where
  \<comment> \<open>\<open>RANEnvironment._decode_action\<close>; \<open>//\<close> and \<open>%\<close> are floor division and its remainder.\<close>
  "decode_action action =
     (let power_idx = action div 9;
          tilt_idx = (action mod 9) div 3;
          handover_idx = action mod 3
      in case py_index power_changes power_idx of
           Inl e \<Rightarrow> Inl e
         | Inr p \<Rightarrow>
             (case py_index tilt_changes tilt_idx of
                Inl e \<Rightarrow> Inl e
              | Inr t \<Rightarrow>
                  (case py_index handover_changes handover_idx of
                     Inl e \<Rightarrow> Inl e
                   | Inr h \<Rightarrow> Inr \<lparr>ch_power = p, ch_tilt = t, ch_handover = h\<rparr>)))"

fun index_of :: "'a \<Rightarrow> 'a list \<Rightarrow> nat" where
  \<comment> \<open>position of the first occurrence, as \<open>list.index\<close> where the element occurs\<close>
  "index_of x [] = 0"
| "index_of x (y # ys) = (if x = y then 0 else Suc (index_of x ys))"

definition encode_action :: "changes \<Rightarrow> int" where
  \<comment> \<open>The inverse mapping of the specification (the source has no encoder): the three
      positions in the delta lists, recombined in radix 3.\<close>
  "encode_action c =
     9 * int (index_of (ch_power c) power_changes)
     + 3 * int (index_of (ch_tilt c) tilt_changes)
     + int (index_of (ch_handover c) handover_changes)"

definition delta_triples :: "changes set" where
  "delta_triples =
     {c. ch_power c \<in> {-3, 0, 3} \<and> ch_tilt c \<in> {-2, 0, 2} \<and> ch_handover c \<in> {-5, 0, 5}}"

section \<open>ran\_environment.py: cells and the environment\<close>

text \<open>
  A cell is a Python dict whose keys are all set by both reset paths, so it is a record.
  \<open>id\<close> is written \<open>cell_id\<close>.
\<close>

record cell =
  cell_id :: nat
  cell_type :: string
  tx_power :: real
  antenna_tilt :: real
  handover_threshold :: real
  num_users :: int
  throughput :: real
  drop_rate :: real
  power_consumption :: real
  interference :: real
  latency :: real
  snr :: real
  qos_satisfaction :: real
  frequency :: real
  bandwidth :: real
  optimized_action :: string
  optimized_power :: real

text \<open>
  A cell dict as the data loader returns it. The keys read with \<open>real_cell[k]\<close> are
  plain fields; the keys read with \<open>real_cell.get(k, default)\<close> are optional.
\<close>

record real_cell =
  rc_tx_power :: real
  rc_num_users :: int
  rc_throughput :: real
  rc_drop_rate :: real
  rc_power_consumption :: real
  rc_interference :: real
  rc_cell_type :: "string option"
  rc_antenna_tilt :: "real option"
  rc_handover_threshold :: "real option"
  rc_latency :: "real option"
  rc_snr :: "real option"
  rc_qos_satisfaction :: "real option"
  rc_frequency :: "real option"
  rc_bandwidth :: "real option"
  rc_optimized_action :: "string option"
  rc_optimized_power :: "real option"

text \<open>
  The outcomes of the calls to \<open>np.random\<close>, in the order of the source, are arguments:
  one record per cell for \<open>_reset_simulated\<close>, one record per call for \<open>step\<close>.
  The process-global generator that produces them is not part of the environment.
\<close>

record reset_draws =
  rd_num_users :: int
  rd_throughput :: real
  rd_drop_rate :: real
  rd_interference :: real
  rd_latency :: real
  rd_snr :: real
  rd_qos_satisfaction :: real

definition reset_draws_ok :: "reset_draws \<Rightarrow> bool" where
  \<comment> \<open>the ranges of \<open>randint(50, 500)\<close> and of the six \<open>uniform(lo, hi)\<close> calls\<close>
  "reset_draws_ok d \<longleftrightarrow>
     50 \<le> rd_num_users d \<and> rd_num_users d < 500
   \<and> 20 \<le> rd_throughput d \<and> rd_throughput d \<le> 100
   \<and> 0 \<le> rd_drop_rate d \<and> rd_drop_rate d \<le> 0.1
   \<and> 0 \<le> rd_interference d \<and> rd_interference d \<le> 0.3
   \<and> 10 \<le> rd_latency d \<and> rd_latency d \<le> 50
   \<and> 10 \<le> rd_snr d \<and> rd_snr d \<le> 30
   \<and> 70 \<le> rd_qos_satisfaction d \<and> rd_qos_satisfaction d \<le> 100"

record step_draws =
  sd_power_up :: real
  sd_power_down :: real
  sd_tilt_throughput :: real
  sd_tilt_interference :: real
  sd_noise_throughput :: real
  sd_noise_drop_rate :: real

definition step_draws_ok :: "step_draws \<Rightarrow> bool" where
  \<comment> \<open>\<open>uniform(2, 8)\<close>, \<open>uniform(1, 4)\<close>, \<open>uniform(-3, 5)\<close>, \<open>uniform(-0.02, 0.02)\<close>,
      \<open>uniform(-2, 2)\<close>, \<open>uniform(-0.005, 0.005)\<close>\<close>
  "step_draws_ok d \<longleftrightarrow>
     2 \<le> sd_power_up d \<and> sd_power_up d \<le> 8
   \<and> 1 \<le> sd_power_down d \<and> sd_power_down d \<le> 4
   \<and> -3 \<le> sd_tilt_throughput d \<and> sd_tilt_throughput d \<le> 5
   \<and> -0.02 \<le> sd_tilt_interference d \<and> sd_tilt_interference d \<le> 0.02
   \<and> -2 \<le> sd_noise_throughput d \<and> sd_noise_throughput d \<le> 2
   \<and> -0.005 \<le> sd_noise_drop_rate d \<and> sd_noise_drop_rate d \<le> 0.005"

type_synonym loader = "nat \<Rightarrow> int \<Rightarrow> real_cell list"
  \<comment> \<open>\<open>NetworkDataLoader.sample_network_state(num_cells, seed)\<close> on the loaded data set\<close>

record env =
  num_cells :: nat
  use_real_data :: bool
  random_seed :: "int option"
  data_loader :: "loader option"
  episode_count :: nat
  cells :: "cell list"
  current_cell_idx :: nat
  episode_step :: nat

definition get_or :: "'a option \<Rightarrow> 'a \<Rightarrow> 'a" where
  \<comment> \<open>\<open>d.get(k, default)\<close>\<close>
  "get_or v dflt = (case v of None \<Rightarrow> dflt | Some x \<Rightarrow> x)"

definition cell_of_real :: "nat \<Rightarrow> real_cell \<Rightarrow> cell" where
  \<comment> \<open>the dict built in the loop of \<open>_reset_from_real_data\<close>\<close>
  "cell_of_real i rc =
     \<lparr>cell_id = i,
      cell_type = get_or (rc_cell_type rc) ''Macro'',
      tx_power = rc_tx_power rc,
      antenna_tilt = get_or (rc_antenna_tilt rc) 3.0,
      handover_threshold = get_or (rc_handover_threshold rc) 70.0,
      num_users = rc_num_users rc,
      throughput = rc_throughput rc,
      drop_rate = rc_drop_rate rc,
      power_consumption = rc_power_consumption rc,
      interference = rc_interference rc,
      latency = get_or (rc_latency rc) 15.0,
      snr = get_or (rc_snr rc) 20.0,
      qos_satisfaction = get_or (rc_qos_satisfaction rc) 80.0,
      frequency = get_or (rc_frequency rc) 3.5,
      bandwidth = get_or (rc_bandwidth rc) 100,
      optimized_action = get_or (rc_optimized_action rc) ''Maintain_Power'',
      optimized_power = get_or (rc_optimized_power rc) (rc_tx_power rc)\<rparr>"

definition reset_from_real_data :: "env \<Rightarrow> loader \<Rightarrow> env" where
  \<comment> \<open>\<open>RANEnvironment._reset_from_real_data\<close>\<close>
  "reset_from_real_data e ld =
     (let seed = (case random_seed e of Some s \<Rightarrow> s | None \<Rightarrow> int (episode_count e));
          real_cells = ld (num_cells e) seed
      in e\<lparr>cells := cells e @ map (\<lambda>(i, rc). cell_of_real i rc) (enumerate 0 real_cells)\<rparr>)"

definition simulated_cell :: "nat \<Rightarrow> reset_draws \<Rightarrow> cell" where
  \<comment> \<open>the dict built in the loop of \<open>_reset_simulated\<close>, with its power consumption set\<close>
  "simulated_cell i d =
     (let c = \<lparr>cell_id = i,
               cell_type = ''Macro'',
               tx_power = 40.0,
               antenna_tilt = 3.0,
               handover_threshold = 70.0,
               num_users = rd_num_users d,
               throughput = rd_throughput d,
               drop_rate = rd_drop_rate d,
               power_consumption = 0.0,
               interference = rd_interference d,
               latency = rd_latency d,
               snr = rd_snr d,
               qos_satisfaction = rd_qos_satisfaction d,
               frequency = 3.5,
               bandwidth = 100,
               optimized_action = ''Maintain_Power'',
               optimized_power = 40.0\<rparr>
      in c\<lparr>power_consumption := tx_power c * 0.5\<rparr>)"

definition reset_simulated :: "env \<Rightarrow> (nat \<Rightarrow> reset_draws) \<Rightarrow> env" where
  \<comment> \<open>\<open>RANEnvironment._reset_simulated\<close>; \<open>draws i\<close> are the seven draws of iteration \<open>i\<close>\<close>
  "reset_simulated e draws =
     e\<lparr>cells := cells e @ map (\<lambda>i. simulated_cell i (draws i)) [0..<num_cells e]\<rparr>"

definition get_state :: "env \<Rightarrow> real list" where
  \<comment> \<open>\<open>RANEnvironment._get_state\<close>\<close>
  "get_state e =
     concat (map (\<lambda>c. [min (real_of_int (num_users c) / 500.0) 1.0,
                        min (throughput c / 1000.0) 1.0,
                        min (drop_rate c / 0.15) 1.0,
                        min (power_consumption c / 50.0) 1.0,
                        min (interference c) 1.0]) (cells e))"

definition reset :: "env \<Rightarrow> (nat \<Rightarrow> reset_draws) \<Rightarrow> env \<times> real list" where
  \<comment> \<open>\<open>RANEnvironment.reset\<close>: the environment after the call and the returned state\<close>
  "reset e draws =
     (let e1 = e\<lparr>cells := [], episode_count := episode_count e + 1\<rparr>;
          e2 = (case (use_real_data e1, data_loader e1) of
                  (True, Some ld) \<Rightarrow> reset_from_real_data e1 ld
                | _ \<Rightarrow> reset_simulated e1 draws);
          e3 = e2\<lparr>current_cell_idx := 0, episode_step := 0\<rparr>
      in (e3, get_state e3))"

definition init_env :: "nat \<Rightarrow> bool \<Rightarrow> loader option \<Rightarrow> int option \<Rightarrow> (nat \<Rightarrow> reset_draws) \<Rightarrow> env" where
  \<comment> \<open>\<open>RANEnvironment.__init__\<close>. \<open>ld\<close> is what \<open>_init_data_loader\<close> obtains: \<open>None\<close> when
      the module or the file is missing, and then the environment falls back to
      simulated data.\<close>
  "init_env n urd ld seed draws =
     fst (reset \<lparr>num_cells = n,
                 use_real_data = (urd \<and> ld \<noteq> None),
                 random_seed = seed,
                 data_loader = (if urd then ld else None),
                 episode_count = 0,
                 cells = [],
                 current_cell_idx = 0,
                 episode_step = 0\<rparr> draws)"

record metrics =
  m_throughput :: real
  m_drop_rate :: real
  m_power :: real
  m_interference :: real
  m_user_satisfaction :: real

definition calculate_satisfaction :: "cell \<Rightarrow> real" where
  \<comment> \<open>\<open>RANEnvironment._calculate_satisfaction\<close>; the key \<open>qos_satisfaction\<close> is always present\<close>
  "calculate_satisfaction c =
     (if qos_satisfaction c > 0 then qos_satisfaction c
      else let throughput_score = min (throughput c / 100.0) 1.0 * 50;
               drop_score = (1 - min (drop_rate c / 0.1) 1.0) * 30;
               interference_score = (1 - min (interference c / 0.5) 1.0) * 20
           in throughput_score + drop_score + interference_score)"

definition calculate_cell_metrics :: "cell \<Rightarrow> metrics" where
  "calculate_cell_metrics c =
     \<lparr>m_throughput = throughput c,
      m_drop_rate = drop_rate c,
      m_power = power_consumption c,
      m_interference = interference c,
      m_user_satisfaction = calculate_satisfaction c\<rparr>"

definition action_matches_recommendation :: "cell \<Rightarrow> bool" where
  "action_matches_recommendation c =
     (let current_power = tx_power c; opt_power = optimized_power c
      in if optimized_action c = ''Reduce_Power'' \<and> current_power > opt_power then True
         else if optimized_action c = ''Increase_Power'' \<and> current_power < opt_power then True
         else if optimized_action c = ''Maintain_Power'' \<and> \<bar>current_power - opt_power\<bar> < 3 then True
         else False)"

definition calculate_reward :: "env \<Rightarrow> metrics \<Rightarrow> metrics \<Rightarrow> cell \<Rightarrow> real" where
  \<comment> \<open>\<open>RANEnvironment._calculate_reward\<close>\<close>
  "calculate_reward e old_metrics new_metrics c =
     (let r0 = 0.0;
          r1 = r0 + (m_throughput new_metrics - m_throughput old_metrics) * 0.1;
          r2 = r1 + (m_drop_rate old_metrics - m_drop_rate new_metrics) * 100;
          r3 = r2 + (m_power old_metrics - m_power new_metrics) * 0.2;
          r4 = r3 + (m_interference old_metrics - m_interference new_metrics) * 10;
          r5 = r4 + (m_user_satisfaction new_metrics - m_user_satisfaction old_metrics) * 0.5;
          r6 = (if use_real_data e \<and> action_matches_recommendation c then r5 + 2.0 else r5);
          r7 = (if m_drop_rate new_metrics > 0.08 then r6 - 10 else r6);
          r8 = (if m_throughput new_metrics < 30 then r7 - 5 else r7)
      in r8)"

definition type_multiplier :: "string \<Rightarrow> real" where
  \<comment> \<open>the dict lookup \<open>{...}.get(cell_type, 1.0)\<close> of \<open>_simulate_changes\<close>\<close>
  "type_multiplier ct =
     (if ct = ''Macro'' then 1.0
      else if ct = ''Micro'' then 0.8
      else if ct = ''Pico'' then 0.6
      else if ct = ''Femto'' then 0.4
      else 1.0)"

definition power_impact :: "cell \<Rightarrow> changes \<Rightarrow> step_draws \<Rightarrow> real \<Rightarrow> cell" where
  \<comment> \<open>\<open>_simulate_changes\<close>, ``Impact of transmission power''\<close>
  "power_impact c ch d tm =
     (if ch_power ch > 0 then
        c\<lparr>throughput := throughput c + sd_power_up d * tm,
          interference := interference c + 0.05 * tm,
          power_consumption := tx_power c * 0.5\<rparr>
      else if ch_power ch < 0 then
        c\<lparr>throughput := throughput c - sd_power_down d * tm,
          interference := interference c - 0.03 * tm,
          power_consumption := tx_power c * 0.5\<rparr>
      else c)"

definition tilt_impact :: "cell \<Rightarrow> changes \<Rightarrow> step_draws \<Rightarrow> real \<Rightarrow> cell" where
  \<comment> \<open>\<open>_simulate_changes\<close>, ``Impact of antenna tilt''\<close>
  "tilt_impact c ch d tm =
     (if ch_tilt ch \<noteq> 0 then
        c\<lparr>throughput := throughput c + sd_tilt_throughput d * tm,
          interference := interference c + sd_tilt_interference d\<rparr>
      else c)"

definition handover_impact :: "cell \<Rightarrow> changes \<Rightarrow> cell" where
  \<comment> \<open>\<open>_simulate_changes\<close>, ``Impact of handover threshold''\<close>
  "handover_impact c ch =
     (if ch_handover ch < 0 then
        c\<lparr>drop_rate := drop_rate c * 0.9,
          num_users := py_int (real_of_int (num_users c) * 0.95)\<rparr>
      else if ch_handover ch > 0 then
        c\<lparr>drop_rate := drop_rate c * 1.05,
          num_users := py_int (real_of_int (num_users c) * 1.05)\<rparr>
      else c)"

definition add_randomness :: "cell \<Rightarrow> step_draws \<Rightarrow> cell" where
  \<comment> \<open>\<open>_simulate_changes\<close>, ``Add randomness to simulate reality''\<close>
  "add_randomness c d =
     c\<lparr>throughput := throughput c + sd_noise_throughput d,
       drop_rate := drop_rate c + sd_noise_drop_rate d\<rparr>"

definition keep_in_range :: "cell \<Rightarrow> cell" where
  \<comment> \<open>\<open>_simulate_changes\<close>, ``Keep values within valid ranges''\<close>
  "keep_in_range c =
     c\<lparr>throughput := clip (throughput c) 10 1000,
       drop_rate := clip (drop_rate c) 0 0.15,
       interference := clip (interference c) 0 1.0,
       num_users := max 1 (num_users c)\<rparr>"

definition simulate_changes :: "cell \<Rightarrow> changes \<Rightarrow> step_draws \<Rightarrow> cell" where
  \<comment> \<open>\<open>RANEnvironment._simulate_changes\<close>: the cell after the in-place updates, block by
      block in the order of the source\<close>
  "simulate_changes c ch d =
     (let tm = type_multiplier (cell_type c)
      in keep_in_range
           (add_randomness (handover_impact (tilt_impact (power_impact c ch d tm) ch d tm) ch) d))"

definition apply_changes :: "cell \<Rightarrow> changes \<Rightarrow> cell" where
  \<comment> \<open>the three clipped assignments of \<open>step\<close>\<close>
  "apply_changes c ch =
     c\<lparr>tx_power := clip (tx_power c + real_of_int (ch_power ch)) 10 50,
       antenna_tilt := clip (antenna_tilt c + real_of_int (ch_tilt ch)) 0 10,
       handover_threshold := clip (handover_threshold c + real_of_int (ch_handover ch)) 50 90\<rparr>"

record step_info =
  info_cell_id :: nat
  info_cell_type :: string
  info_old_metrics :: metrics
  info_new_metrics :: metrics
  info_changes :: changes
  info_optimized_action :: string

record step_result =
  sr_env :: env
  sr_state :: "real list"
  sr_reward :: real
  sr_done :: bool
  sr_info :: step_info

definition step :: "env \<Rightarrow> int \<Rightarrow> step_draws \<Rightarrow> py_error + step_result" where
  \<comment> \<open>\<open>RANEnvironment.step\<close>. The cell dict is updated in place, that is at its position
      in the list. The raises: \<open>cells[current_cell_idx]\<close>, the list reads of
      \<open>_decode_action\<close>, and \<open>% num_cells\<close>.\<close>
  "step e action d =
     (case py_index (cells e) (int (current_cell_idx e)) of
        Inl err \<Rightarrow> Inl err
      | Inr c \<Rightarrow>
          (case decode_action action of
             Inl err \<Rightarrow> Inl err
           | Inr ch \<Rightarrow>
               (let old_metrics = calculate_cell_metrics c;
                    c' = simulate_changes (apply_changes c ch) ch d;
                    new_metrics = calculate_cell_metrics c';
                    reward = calculate_reward e old_metrics new_metrics c'
                in if num_cells e = 0 then Inl ZeroDivisionError
                   else
                     (let e' = e\<lparr>cells := (cells e)[current_cell_idx e := c'],
                                 current_cell_idx := (current_cell_idx e + 1) mod num_cells e,
                                 episode_step := episode_step e + 1\<rparr>
                      in Inr \<lparr>sr_env = e',
                              sr_state = get_state e',
                              sr_reward = reward,
                              sr_done = (episode_step e' \<ge> 100),
                              sr_info = \<lparr>info_cell_id = cell_id c',
                                         info_cell_type = cell_type c',
                                         info_old_metrics = old_metrics,
                                         info_new_metrics = new_metrics,
                                         info_changes = ch,
                                         info_optimized_action = optimized_action c'\<rparr>\<rparr>))))"

fun run_steps :: "env \<Rightarrow> (int \<times> step_draws) list \<Rightarrow> py_error + (env \<times> bool list)" where
  \<comment> \<open>consecutive \<open>step\<close> calls: the final environment and the \<open>done\<close> flags returned,
      or the first raise\<close>
  "run_steps e [] = Inr (e, [])"
| "run_steps e ((a, d) # rest) =
     (case step e a d of
        Inl err \<Rightarrow> Inl err
      | Inr r \<Rightarrow>
          (case run_steps (sr_env r) rest of
             Inl err \<Rightarrow> Inl err
           | Inr (e', ds) \<Rightarrow> Inr (e', sr_done r # ds)))"

definition cell_bounds :: "cell \<Rightarrow> bool" where
  \<comment> \<open>the four bounds of the data model\<close>
  "cell_bounds c \<longleftrightarrow>
     10 \<le> tx_power c \<and> tx_power c \<le> 50
   \<and> 0 \<le> antenna_tilt c \<and> antenna_tilt c \<le> 10
   \<and> 50 \<le> handover_threshold c \<and> handover_threshold c \<le> 90
   \<and> 0 \<le> drop_rate c \<and> drop_rate c \<le> 0.15"

definition pc_inv :: "cell \<Rightarrow> bool" where
  \<comment> \<open>the power consumption is the one computed from a transmit power within bounds\<close>
  "pc_inv c \<longleftrightarrow>
     power_consumption c = tx_power c * 0.5 \<and> 10 \<le> tx_power c \<and> tx_power c \<le> 50"

section \<open>agent.py: the DQN agent\<close>

text \<open>
  The torch library is outside the repository. A layer's parameters are values of a type
  \<open>'l\<close>, the optimizer's internal state a value of a type \<open>'o\<close>, and the two library
  operations the agent relies on are the fields of a record: applying a linear layer,
  and one optimizer update (\<open>zero_grad\<close>, \<open>backward\<close>, \<open>step\<close>) of the online parameters
  for the mean-squared error between the online values of the taken actions and the
  given targets. Tensors are lists of reals; shape errors inside a layer are torch's.
\<close>

type_synonym observation = "real list"

type_synonym experience = "observation \<times> int \<times> real \<times> observation \<times> bool"

record 'l dq_network =
  fc1 :: 'l
  fc2 :: 'l
  fc3 :: 'l
  fc4 :: 'l

record ('l, 'o) torch =
  linear :: "'l \<Rightarrow> real list \<Rightarrow> real list"
  adam_step :: "'l dq_network \<Rightarrow> 'o \<Rightarrow> (observation \<times> int \<times> real) list \<Rightarrow> 'l dq_network \<times> 'o"

definition relu :: "real \<Rightarrow> real" where
  "relu x = max 0 x"

definition forward :: "('l \<Rightarrow> real list \<Rightarrow> real list) \<Rightarrow> 'l dq_network \<Rightarrow> observation \<Rightarrow> real list" where
  \<comment> \<open>\<open>DQNetwork.forward\<close>\<close>
  "forward lin net state =
     (let x1 = map relu (lin (fc1 net) state);
          x2 = map relu (lin (fc2 net) x1);
          x3 = map relu (lin (fc3 net) x2)
      in lin (fc4 net) x3)"

record ('l, 'o) agent =
  state_size :: nat
  action_size :: nat
  gamma :: real
  epsilon :: real
  epsilon_min :: real
  epsilon_decay :: real
  learning_rate :: real
  batch_size :: nat
  memory_size :: nat
  memory :: "experience list"
  q_network :: "'l dq_network"
  target_network :: "'l dq_network"
  optimizer :: 'o

definition update_target_network :: "('l, 'o) agent \<Rightarrow> ('l, 'o) agent" where
  \<comment> \<open>\<open>target_network.load_state_dict(q_network.state_dict())\<close>: the values of all online
      parameters are copied into the target network's own parameters\<close>
  "update_target_network ag = ag\<lparr>target_network := q_network ag\<rparr>"

definition init_agent :: "nat \<Rightarrow> nat \<Rightarrow> 'l dq_network \<Rightarrow> 'l dq_network \<Rightarrow> 'o \<Rightarrow> ('l, 'o) agent" where
  \<comment> \<open>\<open>RANOptimizationAgent.__init__\<close>. \<open>q0\<close> and \<open>t0\<close> are the parameters the two networks
      are created with, \<open>o0\<close> the state of the new optimizer. The diagnostics
      \<open>training_stats\<close>, written by \<open>train\<close> only, are left out.\<close>
  "init_agent ssize asize q0 t0 o0 =
     update_target_network
       \<lparr>state_size = ssize, action_size = asize,
        gamma = 0.99, epsilon = 1.0, epsilon_min = 0.01, epsilon_decay = 0.995,
        learning_rate = 0.001, batch_size = 64, memory_size = 10000,
        memory = [], q_network = q0, target_network = t0, optimizer = o0\<rparr>"

definition remember :: "('l, 'o) agent \<Rightarrow> experience \<Rightarrow> ('l, 'o) agent" where
  \<comment> \<open>\<open>memory.append\<close> on a \<open>deque(maxlen=memory_size)\<close>: when the deque is full the
      entries at the left end are discarded\<close>
  "remember ag ex =
     (let m = memory ag @ [ex]
      in ag\<lparr>memory := drop (length m - memory_size ag) m\<rparr>)"

definition list_max :: "real list \<Rightarrow> real" where
  \<comment> \<open>the maximum of a non-empty list\<close>
  "list_max xs = fold max (tl xs) (hd xs)"

definition argmax :: "real list \<Rightarrow> py_error + int" where
  \<comment> \<open>\<open>q_values.argmax().item()\<close>: the first position of the maximum; torch raises on an
      empty tensor\<close>
  "argmax qs = (if qs = [] then Inl RuntimeError else Inr (int (index_of (list_max qs) qs)))"

definition act :: "('l, 'o) torch \<Rightarrow> ('l, 'o) agent \<Rightarrow> observation \<Rightarrow> bool \<Rightarrow> real \<Rightarrow> int \<Rightarrow> py_error + int" where
  \<comment> \<open>\<open>RANOptimizationAgent.act\<close>. \<open>u\<close> is the outcome of \<open>np.random.rand()\<close>, \<open>k\<close> the
      outcome of \<open>random.randrange(action_size)\<close>, which raises on an empty range.\<close>
  "act tc ag state training u k =
     (if training \<and> u \<le> epsilon ag then
        (if action_size ag = 0 then Inl ValueError else Inr k)
      else argmax (forward (linear tc) (q_network ag) state))"

definition current_q_value :: "('l, 'o) torch \<Rightarrow> ('l, 'o) agent \<Rightarrow> experience \<Rightarrow> py_error + real" where
  \<comment> \<open>one row of \<open>q_network(states).gather(1, actions.unsqueeze(1))\<close>; \<open>gather\<close> raises on an
      index outside the row\<close>
  "current_q_value tc ag ex =
     (case ex of (state, action, reward, next_state, dn) \<Rightarrow>
        (let qs = forward (linear tc) (q_network ag) state
         in if 0 \<le> action \<and> action < int (length qs) then Inr (qs ! nat action)
            else Inl RuntimeError))"

definition target_q_value :: "('l, 'o) torch \<Rightarrow> ('l, 'o) agent \<Rightarrow> experience \<Rightarrow> py_error + real" where
  \<comment> \<open>one row of \<open>rewards + (1 - dones) * gamma * target_network(next_states).max(1)[0]\<close>;
      \<open>max\<close> raises on an empty row\<close>
  "target_q_value tc ag ex =
     (case ex of (state, action, reward, next_state, dn) \<Rightarrow>
        (let nq = forward (linear tc) (target_network ag) next_state
         in if nq = [] then Inl RuntimeError
            else Inr (reward + (1 - (if dn then 1 else 0)) * gamma ag * list_max nq)))"

definition mse_loss :: "real list \<Rightarrow> real list \<Rightarrow> real" where
  \<comment> \<open>\<open>nn.MSELoss()\<close>: the mean of the squared differences\<close>
  "mse_loss xs ys = sum_list (map (\<lambda>(x, y). (x - y)\<^sup>2) (zip xs ys)) / real (length xs)"

definition replay :: "('l, 'o) torch \<Rightarrow> ('l, 'o) agent \<Rightarrow> (experience list \<Rightarrow> nat \<Rightarrow> experience list)
    \<Rightarrow> py_error + (real option \<times> ('l, 'o) agent)" where
  \<comment> \<open>\<open>RANOptimizationAgent.replay\<close>: the value returned (\<open>None\<close> or the loss) and the agent
      after the call. \<open>sample\<close> is \<open>random.sample\<close> at the generator's state of the call.\<close>
  "replay tc ag sample =
     (if length (memory ag) < batch_size ag then Inr (None, ag)
      else
        (let batch = sample (memory ag) (batch_size ag)
         in bind_err (collect_err (current_q_value tc ag) batch) (\<lambda>current_q_values.
            bind_err (collect_err (target_q_value tc ag) batch) (\<lambda>target_q_values.
              (let loss = mse_loss current_q_values target_q_values;
                   (q', o') = adam_step tc (q_network ag) (optimizer ag)
                                (map (\<lambda>((state, action, reward, next_state, dn), t). (state, action, t))
                                   (zip batch target_q_values));
                   ag1 = ag\<lparr>q_network := q', optimizer := o'\<rparr>;
                   ag2 = (if epsilon ag1 > epsilon_min ag1
                          then ag1\<lparr>epsilon := epsilon ag1 * epsilon_decay ag1\<rparr> else ag1)
               in Inr (Some loss, ag2))))))"

text \<open>Sequences of calls on one agent, between two calls of \<open>update_target_network\<close>.\<close>

datatype agent_call =
  Remember experience
| Act observation bool real int
| Replay "experience list \<Rightarrow> nat \<Rightarrow> experience list"

datatype call_result = Remembered | Chose int | Replayed "real option"

definition apply_call :: "('l, 'o) torch \<Rightarrow> ('l, 'o) agent \<Rightarrow> agent_call
    \<Rightarrow> py_error + (call_result \<times> ('l, 'o) agent)" where
  "apply_call tc ag c =
     (case c of
        Remember ex \<Rightarrow> Inr (Remembered, remember ag ex)
      | Act state training u k \<Rightarrow>
          bind_err (act tc ag state training u k) (\<lambda>a. Inr (Chose a, ag))
      | Replay sample \<Rightarrow>
          bind_err (replay tc ag sample) (\<lambda>(res, ag'). Inr (Replayed res, ag')))"

fun run_calls :: "('l, 'o) torch \<Rightarrow> ('l, 'o) agent \<Rightarrow> agent_call list
    \<Rightarrow> py_error + (call_result list \<times> ('l, 'o) agent)" where
  \<comment> \<open>the values returned and the agent after the last call, or the first raise\<close>
  "run_calls tc ag [] = Inr ([], ag)"
| "run_calls tc ag (c # cs) =
     (case apply_call tc ag c of
        Inl e \<Rightarrow> Inl e
      | Inr (res, ag') \<Rightarrow>
          (case run_calls tc ag' cs of
             Inl e \<Rightarrow> Inl e
           | Inr (rs, ag'') \<Rightarrow> Inr (res # rs, ag'')))"

fun trained :: "call_result \<Rightarrow> bool" where
  \<comment> \<open>a \<open>replay\<close> call that returned a loss, that is, performed a training step\<close>
  "trained (Replayed (Some loss)) = True"
| "trained _ = False"

definition trainings :: "call_result list \<Rightarrow> nat" where
  "trainings rs = length (filter trained rs)"

section \<open>ab\_testing.py: the analysis of an A/B test\<close>















section \<open>Concrete inputs\<close>

definition example_reset_draws :: "nat \<Rightarrow> reset_draws" where
  \<comment> \<open>draws within the ranges of \<open>_reset_simulated\<close>; cell \<open>i\<close> gets \<open>50 + i\<close> users\<close>
  "example_reset_draws i =
     \<lparr>rd_num_users = 50 + int i, rd_throughput = 50, rd_drop_rate = 0.05,
      rd_interference = 0.1, rd_latency = 20, rd_snr = 20, rd_qos_satisfaction = 80\<rparr>"

definition example_step_draws :: step_draws where
  \<comment> \<open>draws within the ranges of \<open>_simulate_changes\<close>\<close>
  "example_step_draws =
     \<lparr>sd_power_up = 2, sd_power_down = 1, sd_tilt_throughput = 1,
      sd_tilt_interference = 0.01, sd_noise_throughput = 1, sd_noise_drop_rate = 0.001\<rparr>"

definition example_real_cell :: "real \<Rightarrow> real \<Rightarrow> real_cell" where
  \<comment> \<open>a loader dict with the given \<open>tx_power\<close> and \<open>power_consumption\<close>\<close>
  "example_real_cell tx pc =
     \<lparr>rc_tx_power = tx, rc_num_users = 100, rc_throughput = 50, rc_drop_rate = 0.02,
      rc_power_consumption = pc, rc_interference = 0.1,
      rc_cell_type = Some ''Macro'', rc_antenna_tilt = Some 3.0,
      rc_handover_threshold = Some 70.0, rc_latency = Some 15.0, rc_snr = Some 20.0,
      rc_qos_satisfaction = Some 80.0, rc_frequency = Some 3.5, rc_bandwidth = Some 100,
      rc_optimized_action = Some ''Maintain_Power'', rc_optimized_power = Some tx\<rparr>"

definition example_loader :: loader where
  \<comment> \<open>a data set of two cells, with transmit powers 55 and 60 dBm and power consumptions
      100 and 120 W\<close>
  "example_loader n seed = take n [example_real_cell 55 100, example_real_cell 60 120]"

definition real_env :: env where
  \<comment> \<open>\<open>RANEnvironment(num_cells=2, use_real_data=True)\<close> over \<open>example_loader\<close>\<close>
  "real_env = init_env 2 True (Some example_loader) None example_reset_draws"

definition sim_env :: env where
  \<comment> \<open>\<open>RANEnvironment(num_cells=2, use_real_data=False, random_seed=42)\<close>\<close>
  "sim_env = init_env 2 False None (Some 42) example_reset_draws"

definition short_env :: env where
  \<comment> \<open>\<open>RANEnvironment(num_cells=3, use_real_data=True)\<close> over \<open>example_loader\<close>, whose data
      set has two cells\<close>
  "short_env = init_env 3 True (Some example_loader) None example_reset_draws"

definition sim_env10 :: env where
  \<comment> \<open>\<open>RANEnvironment(num_cells=10, use_real_data=False, random_seed=42)\<close>\<close>
  "sim_env10 = init_env 10 False None (Some 42) example_reset_draws"

definition example_torch :: "(nat, nat) torch" where
  \<comment> \<open>a toy library: a layer with parameter \<open>l\<close> returns the one value \<open>l\<close>, an optimizer
      update increments the last layer and counts the updates\<close>
  "example_torch =
     \<lparr>linear = (\<lambda>l x. [real l]),
      adam_step = (\<lambda>q opt b. (q\<lparr>fc4 := Suc (fc4 q)\<rparr>, Suc opt))\<rparr>"

definition example_network :: "nat dq_network" where
  "example_network = \<lparr>fc1 = 0, fc2 = 0, fc3 = 0, fc4 = 0\<rparr>"

definition example_agent :: "(nat, nat) agent" where
  \<comment> \<open>\<open>RANOptimizationAgent(1, 1)\<close>\<close>
  "example_agent = init_agent 1 1 example_network example_network 0"

definition example_experience :: experience where
  "example_experience = ([0], 0, 1, [0], False)"

definition example_sample :: "experience list \<Rightarrow> nat \<Rightarrow> experience list" where
  \<comment> \<open>one possible outcome of \<open>random.sample\<close>: the first \<open>k\<close> entries\<close>
  "example_sample m k = take k m"

definition filled_agent :: "(nat, nat) agent" where
  \<comment> \<open>the agent after 64 \<open>remember\<close> calls\<close>
  "filled_agent = example_agent\<lparr>memory := replicate 64 example_experience\<rparr>"




section \<open>Properties of the action encoding\<close>

lemma py_index_in_range:
  "0 \<le> i \<Longrightarrow> i < int (length xs) \<Longrightarrow> py_index xs i = Inr (xs ! nat i)"
  by (simp add: py_index_def)

lemma decode_action_valid:
  assumes "0 \<le> a" and "a \<le> 26"
  shows "decode_action a =
           Inr \<lparr>ch_power = power_changes ! nat (a div 9),
                ch_tilt = tilt_changes ! nat ((a mod 9) div 3),
                ch_handover = handover_changes ! nat (a mod 3)\<rparr>"
proof -
  have p: "0 \<le> a div 9" "a div 9 < 3" using assms by linarith+
  have t: "0 \<le> (a mod 9) div 3" "(a mod 9) div 3 < 3" by linarith+
  have h: "0 \<le> a mod 3" "a mod 3 < 3" by simp_all
  show ?thesis
    unfolding decode_action_def Let_def
    using p t h
    by (simp add: py_index_in_range power_changes_def tilt_changes_def handover_changes_def)
qed

lemma three_cases: "(k::int) \<ge> 0 \<Longrightarrow> k < 3 \<Longrightarrow> k = 0 \<or> k = 1 \<or> k = 2"
  by arith


lemma recombine_radix3: "9 * ((a::int) div 9) + 3 * ((a mod 9) div 3) + a mod 3 = a"
proof -
  have "a mod 9 mod 3 = a mod 3" by (simp add: mod_mod_cancel)
  then have "3 * ((a mod 9) div 3) + a mod 3 = a mod 9"
    using mult_div_mod_eq [of 3 "a mod 9"] by simp
  then show ?thesis using mult_div_mod_eq [of 9 a] by linarith
qed

lemma small_nat_cases: "(i::nat) < 3 \<Longrightarrow> i = 0 \<or> i = 1 \<or> i = 2"
  by arith

lemma radix3_digits:
  assumes "(i::nat) < 3" "(j::nat) < 3" "(k::nat) < 3"
  shows "(9 * int i + 3 * int j + int k) div 9 = int i"
    and "((9 * int i + 3 * int j + int k) mod 9) div 3 = int j"
    and "(9 * int i + 3 * int j + int k) mod 3 = int k"
proof -
  have i: "i = 0 \<or> i = 1 \<or> i = 2" using assms(1) by (rule small_nat_cases)
  have j: "j = 0 \<or> j = 1 \<or> j = 2" using assms(2) by (rule small_nat_cases)
  have k: "k = 0 \<or> k = 1 \<or> k = 2" using assms(3) by (rule small_nat_cases)
  show "(9 * int i + 3 * int j + int k) div 9 = int i" using i j k by auto
  show "((9 * int i + 3 * int j + int k) mod 9) div 3 = int j" using i j k by auto
  show "(9 * int i + 3 * int j + int k) mod 3 = int k" using i j k by auto
qed


lemma decode_action_encode:
  assumes "0 \<le> a" and "a \<le> 26"
  shows "\<exists>c. decode_action a = Inr c \<and> c \<in> delta_triples \<and> encode_action c = a"
proof -
  let ?p = "a div 9" and ?t = "(a mod 9) div 3" and ?h = "a mod 3"
  have "0 \<le> ?p" "?p < 3" using assms by linarith+
  then have p: "?p = 0 \<or> ?p = 1 \<or> ?p = 2" by (rule three_cases)
  have "0 \<le> ?t" "?t < 3" by linarith+
  then have t: "?t = 0 \<or> ?t = 1 \<or> ?t = 2" by (rule three_cases)
  have "0 \<le> ?h" "?h < 3" by simp_all
  then have h: "?h = 0 \<or> ?h = 1 \<or> ?h = 2" by (rule three_cases)
  let ?c = "\<lparr>ch_power = power_changes ! nat ?p, ch_tilt = tilt_changes ! nat ?t,
             ch_handover = handover_changes ! nat ?h\<rparr>"
  have d: "decode_action a = Inr ?c" using assms by (rule decode_action_valid)
  have ip: "int (index_of (power_changes ! nat ?p) power_changes) = ?p"
    using p by (auto simp: power_changes_def)
  have it: "int (index_of (tilt_changes ! nat ?t) tilt_changes) = ?t"
    using t by (auto simp: tilt_changes_def)
  have ih: "int (index_of (handover_changes ! nat ?h) handover_changes) = ?h"
    using h by (auto simp: handover_changes_def)
  have mp: "power_changes ! nat ?p \<in> {-3, 0, 3}"
    using p by (auto simp: power_changes_def)
  have mt: "tilt_changes ! nat ?t \<in> {-2, 0, 2}"
    using t by (auto simp: tilt_changes_def)
  have mh: "handover_changes ! nat ?h \<in> {-5, 0, 5}"
    using h by (auto simp: handover_changes_def)
  have mem: "?c \<in> delta_triples"
    using mp mt mh by (simp add: delta_triples_def)
  have "encode_action ?c = 9 * ?p + 3 * ?t + ?h"
    unfolding encode_action_def using ip it ih by simp
  then have "encode_action ?c = a" by (simp only: recombine_radix3)
  with d mem show ?thesis by blast
qed

lemma encode_action_range:
  assumes "c \<in> delta_triples"
  shows "0 \<le> encode_action c \<and> encode_action c \<le> 26 \<and> decode_action (encode_action c) = Inr c"
proof -
  have p: "ch_power c = -3 \<or> ch_power c = 0 \<or> ch_power c = 3"
    and t: "ch_tilt c = -2 \<or> ch_tilt c = 0 \<or> ch_tilt c = 2"
    and h: "ch_handover c = -5 \<or> ch_handover c = 0 \<or> ch_handover c = 5"
    using assms by (auto simp: delta_triples_def)
  define i where "i = index_of (ch_power c) power_changes"
  define j where "j = index_of (ch_tilt c) tilt_changes"
  define k where "k = index_of (ch_handover c) handover_changes"
  have ip: "i < 3 \<and> power_changes ! i = ch_power c"
    unfolding i_def using p by (auto simp: power_changes_def)
  have it: "j < 3 \<and> tilt_changes ! j = ch_tilt c"
    unfolding j_def using t by (auto simp: tilt_changes_def)
  have ih: "k < 3 \<and> handover_changes ! k = ch_handover c"
    unfolding k_def using h by (auto simp: handover_changes_def)
  have e: "encode_action c = 9 * int i + 3 * int j + int k"
    by (simp add: encode_action_def i_def j_def k_def)
  have b: "i < 3" "j < 3" "k < 3" using ip it ih by simp_all
  have r: "0 \<le> encode_action c" "encode_action c \<le> 26" using e b by linarith+
  have dp: "encode_action c div 9 = int i"
    and dt: "(encode_action c mod 9) div 3 = int j"
    and dh: "encode_action c mod 3 = int k"
    unfolding e using radix3_digits [OF b] by blast+
  have "decode_action (encode_action c) =
          Inr \<lparr>ch_power = power_changes ! i, ch_tilt = tilt_changes ! j,
               ch_handover = handover_changes ! k\<rparr>"
    using decode_action_valid [OF r] by (simp add: dp dt dh)
  also have "\<dots> = Inr c"
    using ip it ih by simp
  finally show ?thesis using r by simp
qed

lemma decode_action_inj: "inj_on decode_action {0..26}"
proof (rule inj_onI)
  fix a b :: int
  assume a: "a \<in> {0..26}" and b: "b \<in> {0..26}" and eq: "decode_action a = decode_action b"
  from a obtain c where c: "decode_action a = Inr c" "encode_action c = a"
    using decode_action_encode [of a] by auto
  from b obtain d where d: "decode_action b = Inr d" "encode_action d = b"
    using decode_action_encode [of b] by auto
  from eq c d have "c = d" by simp
  with c d show "a = b" by simp
qed

lemma decode_action_image: "decode_action ` {0..26} = Inr ` delta_triples"
proof (intro set_eqI iffI)
  fix r :: "py_error + changes"
  assume "r \<in> decode_action ` {0..26}"
  then obtain a where a: "a \<in> {0..26}" "r = decode_action a" by blast
  then obtain c where "decode_action a = Inr c" "c \<in> delta_triples"
    using decode_action_encode [of a] by auto
  with a show "r \<in> Inr ` delta_triples" by simp
next
  fix r :: "py_error + changes"
  assume "r \<in> Inr ` delta_triples"
  then obtain c where c: "c \<in> delta_triples" "r = Inr c" by blast
  from encode_action_range [OF c(1)] c(2)
  have "encode_action c \<in> {0..26}" "r = decode_action (encode_action c)" by simp_all
  then show "r \<in> decode_action ` {0..26}" by blast
qed

text \<open>
  C1. On the action indices 0..26, \<open>_decode_action\<close> returns the triple at positions
  \<open>a div 9\<close>, \<open>(a mod 9) div 3\<close>, \<open>a mod 3\<close> of the delta lists \<open>[-3,0,3]\<close>,
  \<open>[-2,0,2]\<close>, \<open>[-5,0,5]\<close>; re-encoding the triple gives \<open>a\<close> back; distinct indices give
  distinct triples, and every one of the 27 triples is reached: a bijection.
\<close>

theorem decode_action_bijection:
  "(\<forall>a \<in> {0..26}. \<exists>c.
       decode_action a = Inr c
     \<and> ch_power c = [-3, 0, 3] ! nat (a div 9)
     \<and> ch_tilt c = [-2, 0, 2] ! nat ((a mod 9) div 3)
     \<and> ch_handover c = [-5, 0, 5] ! nat (a mod 3)
     \<and> c \<in> delta_triples
     \<and> encode_action c = a)
   \<and> inj_on decode_action {0..26}
   \<and> decode_action ` {0..26} = Inr ` delta_triples
   \<and> card delta_triples = 27"
proof (intro conjI ballI)
  fix a :: int assume "a \<in> {0..26}"
  then have r: "0 \<le> a" "a \<le> 26" by simp_all
  from decode_action_encode [OF r] obtain c
    where c: "decode_action a = Inr c" "c \<in> delta_triples" "encode_action c = a" by blast
  from c(1) decode_action_valid [OF r]
  have "ch_power c = [-3, 0, 3] ! nat (a div 9)
      \<and> ch_tilt c = [-2, 0, 2] ! nat ((a mod 9) div 3)
      \<and> ch_handover c = [-5, 0, 5] ! nat (a mod 3)"
    by (auto simp: power_changes_def tilt_changes_def handover_changes_def)
  with c show "\<exists>c. decode_action a = Inr c
     \<and> ch_power c = [-3, 0, 3] ! nat (a div 9)
     \<and> ch_tilt c = [-2, 0, 2] ! nat ((a mod 9) div 3)
     \<and> ch_handover c = [-5, 0, 5] ! nat (a mod 3)
     \<and> c \<in> delta_triples
     \<and> encode_action c = a" by blast
next
  show "inj_on decode_action {0..26}" by (rule decode_action_inj)
next
  show "decode_action ` {0..26} = Inr ` delta_triples" by (rule decode_action_image)
next
  have "card (decode_action ` {0..26}) = card {0..26::int}"
    using decode_action_inj by (rule card_image)
  moreover have "card (Inr ` delta_triples :: (py_error + changes) set) = card delta_triples"
    by (rule card_image) simp
  ultimately show "card delta_triples = 27" by (simp add: decode_action_image)
qed

theorem decode_action_bijection_witness:
  "(13::int) \<in> {0..26} \<and> decode_action 13 = Inr \<lparr>ch_power = 0, ch_tilt = 0, ch_handover = 0\<rparr>
   \<and> encode_action \<lparr>ch_power = 0, ch_tilt = 0, ch_handover = 0\<rparr> = 13"
proof -
  have m: "(13::int) \<in> {0..26}" by simp
  from decode_action_bijection have
    "\<forall>a \<in> {0..26}. \<exists>c. decode_action a = Inr c
       \<and> ch_power c = [-3, 0, 3] ! nat (a div 9)
       \<and> ch_tilt c = [-2, 0, 2] ! nat ((a mod 9) div 3)
       \<and> ch_handover c = [-5, 0, 5] ! nat (a mod 3)
       \<and> c \<in> delta_triples \<and> encode_action c = a" by (rule conjunct1)
  from bspec [OF this m] obtain c where c: "decode_action 13 = Inr c"
    "ch_power c = [-3, 0, 3] ! nat (13 div 9)"
    "ch_tilt c = [-2, 0, 2] ! nat ((13 mod 9) div 3)"
    "ch_handover c = [-5, 0, 5] ! nat (13 mod 3)"
    "encode_action c = 13" by blast
  have "c = \<lparr>ch_power = 0, ch_tilt = 0, ch_handover = 0\<rparr>"
    using c(2,3,4) by simp
  with c(1,5) m show ?thesis by simp
qed


lemma clip_bounds: "lo \<le> hi \<Longrightarrow> lo \<le> clip x lo hi \<and> clip x lo hi \<le> hi"
  by (simp add: clip_def)

lemma clip_id: "lo \<le> x \<Longrightarrow> x \<le> hi \<Longrightarrow> clip x lo hi = x"
  by (simp add: clip_def)

lemma power_impact_frame:
  "tx_power (power_impact c ch d tm) = tx_power c"
  "antenna_tilt (power_impact c ch d tm) = antenna_tilt c"
  "handover_threshold (power_impact c ch d tm) = handover_threshold c"
  "drop_rate (power_impact c ch d tm) = drop_rate c"
  "num_users (power_impact c ch d tm) = num_users c"
  by (simp_all add: power_impact_def)

lemma tilt_impact_frame:
  "tx_power (tilt_impact c ch d tm) = tx_power c"
  "antenna_tilt (tilt_impact c ch d tm) = antenna_tilt c"
  "handover_threshold (tilt_impact c ch d tm) = handover_threshold c"
  "drop_rate (tilt_impact c ch d tm) = drop_rate c"
  "num_users (tilt_impact c ch d tm) = num_users c"
  "power_consumption (tilt_impact c ch d tm) = power_consumption c"
  by (simp_all add: tilt_impact_def)

lemma handover_impact_frame:
  "tx_power (handover_impact c ch) = tx_power c"
  "antenna_tilt (handover_impact c ch) = antenna_tilt c"
  "handover_threshold (handover_impact c ch) = handover_threshold c"
  "throughput (handover_impact c ch) = throughput c"
  "interference (handover_impact c ch) = interference c"
  "power_consumption (handover_impact c ch) = power_consumption c"
  by (simp_all add: handover_impact_def)

lemma add_randomness_frame:
  "tx_power (add_randomness c d) = tx_power c"
  "antenna_tilt (add_randomness c d) = antenna_tilt c"
  "handover_threshold (add_randomness c d) = handover_threshold c"
  "interference (add_randomness c d) = interference c"
  "num_users (add_randomness c d) = num_users c"
  "power_consumption (add_randomness c d) = power_consumption c"
  "throughput (add_randomness c d) = throughput c + sd_noise_throughput d"
  "drop_rate (add_randomness c d) = drop_rate c + sd_noise_drop_rate d"
  by (simp_all add: add_randomness_def)

lemma keep_in_range_frame:
  "tx_power (keep_in_range c) = tx_power c"
  "antenna_tilt (keep_in_range c) = antenna_tilt c"
  "handover_threshold (keep_in_range c) = handover_threshold c"
  "power_consumption (keep_in_range c) = power_consumption c"
  "throughput (keep_in_range c) = clip (throughput c) 10 1000"
  "drop_rate (keep_in_range c) = clip (drop_rate c) 0 0.15"
  "interference (keep_in_range c) = clip (interference c) 0 1"
  "num_users (keep_in_range c) = max 1 (num_users c)"
  by (simp_all add: keep_in_range_def)

lemma simulate_changes_frame:
  "tx_power (simulate_changes c ch d) = tx_power c"
  "antenna_tilt (simulate_changes c ch d) = antenna_tilt c"
  "handover_threshold (simulate_changes c ch d) = handover_threshold c"
  by (simp_all add: simulate_changes_def Let_def keep_in_range_frame add_randomness_frame
      handover_impact_frame tilt_impact_frame power_impact_frame)

lemma simulate_changes_drop_rate:
  "0 \<le> drop_rate (simulate_changes c ch d) \<and> drop_rate (simulate_changes c ch d) \<le> 0.15"
proof -
  obtain x where "drop_rate (simulate_changes c ch d) = clip x 0 0.15"
    by (simp add: simulate_changes_def Let_def keep_in_range_frame)
  then show ?thesis using clip_bounds [of 0 "0.15" x] by simp
qed

lemma apply_changes_bounds:
  "10 \<le> tx_power (apply_changes c ch) \<and> tx_power (apply_changes c ch) \<le> 50"
  "0 \<le> antenna_tilt (apply_changes c ch) \<and> antenna_tilt (apply_changes c ch) \<le> 10"
  "50 \<le> handover_threshold (apply_changes c ch) \<and> handover_threshold (apply_changes c ch) \<le> 90"
  by (simp_all add: apply_changes_def clip_def)

lemma stepped_cell_bounds: "cell_bounds (simulate_changes (apply_changes c ch) ch d)"
  using simulate_changes_drop_rate [of "apply_changes c ch" ch d] apply_changes_bounds [of c ch]
  by (simp add: cell_bounds_def simulate_changes_frame)


lemma py_index_nat:
  "py_index xs (int i) = (if i < length xs then Inr (xs ! i) else Inl IndexError)"
  by (simp add: py_index_def Let_def)

lemma step_unfold:
  assumes "current_cell_idx e < length (cells e)" and "decode_action a = Inr ch"
    and "num_cells e \<noteq> 0"
  shows "sr_env (projr (step e a d)) =
           e\<lparr>cells := (cells e)[current_cell_idx e :=
                         simulate_changes (apply_changes (cells e ! current_cell_idx e) ch) ch d],
             current_cell_idx := (current_cell_idx e + 1) mod num_cells e,
             episode_step := episode_step e + 1\<rparr>"
    and "sr_done (projr (step e a d)) = (episode_step e + 1 \<ge> 100)"
    and "\<not> isl (step e a d)"
  using assms by (simp_all add: step_def py_index_nat Let_def)

lemma step_Inr_conditions:
  assumes "step e a d = Inr r"
  shows "current_cell_idx e < length (cells e)"
    and "\<exists>ch. decode_action a = Inr ch"
    and "num_cells e \<noteq> 0"
proof -
  show i: "current_cell_idx e < length (cells e)"
  proof (rule ccontr)
    assume "\<not> current_cell_idx e < length (cells e)"
    then have "step e a d = Inl IndexError" by (simp add: step_def py_index_nat)
    with assms show False by simp
  qed
  show c: "\<exists>ch. decode_action a = Inr ch"
  proof (cases "decode_action a")
    case (Inl err)
    with i have "step e a d = Inl err" by (simp add: step_def py_index_nat)
    with assms show ?thesis by simp
  next
    case (Inr ch)
    then show ?thesis by blast
  qed
  show "num_cells e \<noteq> 0"
  proof
    assume "num_cells e = 0"
    with i c have "step e a d = Inl ZeroDivisionError"
      by (auto simp: step_def py_index_nat Let_def)
    with assms show False by simp
  qed
qed

lemma step_InrE:
  assumes "step e a d = Inr r"
  obtains ch where
    "current_cell_idx e < length (cells e)"
    "decode_action a = Inr ch"
    "num_cells e \<noteq> 0"
    "sr_env r =
       e\<lparr>cells := (cells e)[current_cell_idx e :=
                     simulate_changes (apply_changes (cells e ! current_cell_idx e) ch) ch d],
         current_cell_idx := (current_cell_idx e + 1) mod num_cells e,
         episode_step := episode_step e + 1\<rparr>"
    "sr_done r = (episode_step e + 1 \<ge> 100)"
proof -
  from step_Inr_conditions [OF assms] obtain ch where
    c: "current_cell_idx e < length (cells e)" "decode_action a = Inr ch" "num_cells e \<noteq> 0"
    by blast
  from assms have r: "r = projr (step e a d)" by simp
  show thesis
    by (rule that [OF c]) (simp_all only: r step_unfold [OF c])
qed

lemma step_succeeds:
  assumes "current_cell_idx e < length (cells e)" and "decode_action a = Inr ch"
    and "num_cells e \<noteq> 0"
  shows "\<exists>r. step e a d = Inr r"
  using step_unfold(3) [OF assms, of d] by (cases "step e a d") simp_all

lemma step_cells:
  assumes "step e a d = Inr r"
  shows "length (cells (sr_env r)) = length (cells e)"
    and "\<And>i. i \<noteq> current_cell_idx e \<Longrightarrow> cells (sr_env r) ! i = cells e ! i"
    and "cell_bounds (cells (sr_env r) ! current_cell_idx e)"
    and "set (cells (sr_env r)) \<subseteq> insert (cells (sr_env r) ! current_cell_idx e) (set (cells e))"
proof -
  from assms obtain ch where idx: "current_cell_idx e < length (cells e)"
    and env: "sr_env r =
       e\<lparr>cells := (cells e)[current_cell_idx e :=
                     simulate_changes (apply_changes (cells e ! current_cell_idx e) ch) ch d],
         current_cell_idx := (current_cell_idx e + 1) mod num_cells e,
         episode_step := episode_step e + 1\<rparr>"
    by (rule step_InrE)
  show "length (cells (sr_env r)) = length (cells e)" by (simp add: env)
  show "\<And>i. i \<noteq> current_cell_idx e \<Longrightarrow> cells (sr_env r) ! i = cells e ! i"
    by (simp add: env)
  show "cell_bounds (cells (sr_env r) ! current_cell_idx e)"
    using idx by (simp add: env stepped_cell_bounds)
  show "set (cells (sr_env r)) \<subseteq> insert (cells (sr_env r) ! current_cell_idx e) (set (cells e))"
    using idx by (simp add: env set_update_subset_insert)
qed

lemma simulated_cell_bounds: "reset_draws_ok d \<Longrightarrow> cell_bounds (simulated_cell i d)"
  by (simp add: simulated_cell_def Let_def cell_bounds_def reset_draws_ok_def)

lemma reset_simulated_mode:
  assumes "\<not> use_real_data e \<or> data_loader e = None"
  shows "fst (reset e draws) =
           e\<lparr>cells := map (\<lambda>i. simulated_cell i (draws i)) [0..<num_cells e],
             episode_count := episode_count e + 1,
             current_cell_idx := 0, episode_step := 0\<rparr>"
proof (cases "use_real_data e")
  case False
  then show ?thesis by (simp add: reset_def reset_simulated_def Let_def)
next
  case True
  with assms have "data_loader e = None" by simp
  with True show ?thesis by (simp add: reset_def reset_simulated_def Let_def)
qed


section \<open>Concrete environments\<close>

lemma upt_0_2: "[0..<2] = [0, 1]"
  by (simp add: upt_conv_Cons)

lemma sim_env_eq:
  "sim_env = \<lparr>num_cells = 2, use_real_data = False, random_seed = Some 42, data_loader = None,
      episode_count = 1,
      cells = [simulated_cell 0 (example_reset_draws 0), simulated_cell 1 (example_reset_draws 1)],
      current_cell_idx = 0, episode_step = 0\<rparr>"
  by (simp add: sim_env_def init_env_def reset_def reset_simulated_def Let_def upt_0_2)

lemma real_env_eq:
  "real_env = \<lparr>num_cells = 2, use_real_data = True, random_seed = None,
      data_loader = Some example_loader, episode_count = 1,
      cells = [cell_of_real 0 (example_real_cell 55 100), cell_of_real 1 (example_real_cell 60 120)],
      current_cell_idx = 0, episode_step = 0\<rparr>"
  by (simp add: real_env_def init_env_def reset_def reset_from_real_data_def Let_def
      example_loader_def enumerate_eq_zip)

lemma decode_action_13:
  "decode_action 13 = Inr \<lparr>ch_power = 0, ch_tilt = 0, ch_handover = 0\<rparr>"
  using decode_action_valid [of 13]
  by (simp add: power_changes_def tilt_changes_def handover_changes_def)

lemma example_draws_ok: "reset_draws_ok (example_reset_draws 0)" "reset_draws_ok (example_reset_draws 1)"
  "step_draws_ok example_step_draws"
  by (simp_all add: reset_draws_ok_def example_reset_draws_def step_draws_ok_def example_step_draws_def)

lemma sim_env_step_13: "step sim_env 13 example_step_draws = Inr (projr (step sim_env 13 example_step_draws))"
proof -
  have "\<not> isl (step sim_env 13 example_step_draws)"
    by (rule step_unfold(3) [OF _ decode_action_13]) (simp_all add: sim_env_eq)
  then show ?thesis by (cases "step sim_env 13 example_step_draws") simp_all
qed

lemma sim_env_cells_bounds: "\<forall>c \<in> set (cells sim_env). cell_bounds c"
  using example_draws_ok by (simp add: sim_env_eq simulated_cell_bounds)

section \<open>Bounds of the cell parameters\<close>

lemma reset_simulated_bounds:
  assumes "\<not> use_real_data e \<or> data_loader e = None" and "\<forall>i. reset_draws_ok (draws i)"
  shows "\<forall>c \<in> set (cells (fst (reset e draws))). cell_bounds c"
  using assms(2) by (auto simp: reset_simulated_mode [OF assms(1)] simulated_cell_bounds)

text \<open>
  C2 (as the code has it). A successful \<open>step\<close> leaves the targeted cell with
  \<open>tx_power\<close> in [10,50], \<open>antenna_tilt\<close> in [0,10], \<open>handover_threshold\<close> in [50,90] and
  \<open>drop_rate\<close> in [0,0.15], whatever the state before; every other cell is the cell it was.
  So the bounds hold for all cells after a step when they held for all cells before it,
  and a simulated \<open>reset\<close> establishes them.
\<close>

theorem step_cell_bounds:
  "(step e a d = Inr r \<longrightarrow>
       cell_bounds (cells (sr_env r) ! current_cell_idx e)
     \<and> length (cells (sr_env r)) = length (cells e)
     \<and> (\<forall>i. i \<noteq> current_cell_idx e \<longrightarrow> cells (sr_env r) ! i = cells e ! i)
     \<and> ((\<forall>c \<in> set (cells e). cell_bounds c) \<longrightarrow> (\<forall>c \<in> set (cells (sr_env r)). cell_bounds c)))
   \<and> ((\<not> use_real_data e0 \<or> data_loader e0 = None) \<and> (\<forall>i. reset_draws_ok (draws i)) \<longrightarrow>
        (\<forall>c \<in> set (cells (fst (reset e0 draws))). cell_bounds c))"
proof (intro conjI impI)
  assume s: "step e a d = Inr r"
  show "cell_bounds (cells (sr_env r) ! current_cell_idx e)" by (rule step_cells(3) [OF s])
  show "length (cells (sr_env r)) = length (cells e)" by (rule step_cells(1) [OF s])
  show "\<forall>i. i \<noteq> current_cell_idx e \<longrightarrow> cells (sr_env r) ! i = cells e ! i"
    using step_cells(2) [OF s] by blast
  assume b: "\<forall>c \<in> set (cells e). cell_bounds c"
  show "\<forall>c \<in> set (cells (sr_env r)). cell_bounds c"
    using step_cells(3,4) [OF s] b by blast
next
  assume "(\<not> use_real_data e0 \<or> data_loader e0 = None) \<and> (\<forall>i. reset_draws_ok (draws i))"
  then show "\<forall>c \<in> set (cells (fst (reset e0 draws))). cell_bounds c"
    using reset_simulated_bounds by blast
qed

theorem step_cell_bounds_witness:
  "step sim_env 13 example_step_draws = Inr (projr (step sim_env 13 example_step_draws))
   \<and> list_all cell_bounds (cells sim_env)
   \<and> list_all cell_bounds (cells (sr_env (projr (step sim_env 13 example_step_draws))))
   \<and> list_all cell_bounds (cells (fst (reset sim_env (\<lambda>i. example_reset_draws 0))))"
proof -
  have m: "\<not> use_real_data sim_env \<or> data_loader sim_env = None" by (simp add: sim_env_eq)
  have o: "\<forall>i::nat. reset_draws_ok (example_reset_draws 0)" by (simp add: example_draws_ok)
  from step_cell_bounds [of sim_env 13 example_step_draws
      "projr (step sim_env 13 example_step_draws)" sim_env "\<lambda>i. example_reset_draws 0"]
    sim_env_step_13 sim_env_cells_bounds m o
  have "(\<forall>c \<in> set (cells (sr_env (projr (step sim_env 13 example_step_draws)))). cell_bounds c)
      \<and> (\<forall>c \<in> set (cells (fst (reset sim_env (\<lambda>i. example_reset_draws 0)))). cell_bounds c)"
    by blast
  with sim_env_step_13 sim_env_cells_bounds show ?thesis by (simp add: list_all_iff)
qed

text \<open>
  C2 as stated, for all cells and any prior state, fails: after a real-data \<open>reset\<close>
  over a data set whose second
  cell transmits at 60 dBm, \<open>step(13)\<close> returns, and the second cell (not targeted) still
  has \<open>tx_power = 60\<close>, outside [10,50].
\<close>

theorem step_other_cell_unbounded:
  "\<not> isl (step real_env 13 example_step_draws)
   \<and> tx_power (cells (sr_env (projr (step real_env 13 example_step_draws))) ! 1) = 60
   \<and> \<not> cell_bounds (cells (sr_env (projr (step real_env 13 example_step_draws))) ! 1)"
proof -
  have i: "current_cell_idx real_env < length (cells real_env)" "num_cells real_env \<noteq> 0"
    by (simp_all add: real_env_eq)
  have "\<not> isl (step real_env 13 example_step_draws)"
    by (rule step_unfold(3) [OF i(1) decode_action_13 i(2)])
  moreover have "cells (sr_env (projr (step real_env 13 example_step_draws))) ! 1
      = cell_of_real 1 (example_real_cell 60 120)"
    by (simp add: step_unfold(1) [OF i(1) decode_action_13 i(2)]) (simp add: real_env_eq)
  moreover have "tx_power (cell_of_real 1 (example_real_cell 60 120)) = 60"
    by (simp add: cell_of_real_def example_real_cell_def)
  ultimately show ?thesis by (simp add: cell_bounds_def)
qed

section \<open>Power consumption\<close>

lemma simulate_changes_power_consumption:
  "power_consumption (simulate_changes c ch d) =
     (if ch_power ch \<noteq> 0 then tx_power c * 0.5 else power_consumption c)"
  by (simp add: simulate_changes_def Let_def keep_in_range_frame add_randomness_frame
      handover_impact_frame tilt_impact_frame) (simp add: power_impact_def)

lemma apply_changes_power_consumption:
  "power_consumption (apply_changes c ch) = power_consumption c"
  by (simp add: apply_changes_def)

lemma apply_changes_tx_power:
  "tx_power (apply_changes c ch) = clip (tx_power c + real_of_int (ch_power ch)) 10 50"
  by (simp add: apply_changes_def)

lemma stepped_cell_pc:
  "ch_power ch \<noteq> 0 \<Longrightarrow> pc_inv (simulate_changes (apply_changes c ch) ch d)"
  "ch_power ch = 0 \<Longrightarrow> power_consumption (simulate_changes (apply_changes c ch) ch d) = power_consumption c"
  "pc_inv c \<Longrightarrow> pc_inv (simulate_changes (apply_changes c ch) ch d)"
proof -
  have b: "10 \<le> tx_power (apply_changes c ch) \<and> tx_power (apply_changes c ch) \<le> 50"
    by (rule apply_changes_bounds)
  show nz: "ch_power ch \<noteq> 0 \<Longrightarrow> pc_inv (simulate_changes (apply_changes c ch) ch d)"
    using b by (simp add: pc_inv_def simulate_changes_power_consumption simulate_changes_frame)
  show z: "ch_power ch = 0 \<Longrightarrow>
      power_consumption (simulate_changes (apply_changes c ch) ch d) = power_consumption c"
    by (simp add: simulate_changes_power_consumption apply_changes_power_consumption)
  show "pc_inv c \<Longrightarrow> pc_inv (simulate_changes (apply_changes c ch) ch d)"
  proof (cases "ch_power ch = 0")
    case False
    then show ?thesis by (rule nz)
  next
    case True
    assume inv: "pc_inv c"
    then have "tx_power (apply_changes c ch) = tx_power c"
      using True by (simp add: apply_changes_tx_power pc_inv_def clip_id)
    with z [OF True] inv show ?thesis
      by (simp add: pc_inv_def simulate_changes_frame)
  qed
qed

text \<open>
  C3 (as the code has it). A simulated \<open>reset\<close> gives every cell \<open>tx_power = 40\<close> and
  \<open>power_consumption = tx_power * 0.5\<close>. A successful \<open>step\<close> whose power delta is not zero
  recomputes \<open>power_consumption = tx_power * 0.5\<close> for the targeted cell; with a zero power
  delta it leaves \<open>power_consumption\<close> as it was. So when every cell has
  \<open>power_consumption = tx_power * 0.5\<close> and \<open>tx_power\<close> in [10,50] before a step, every cell
  has after it.
\<close>

theorem power_consumption_recomputed:
  "(step e a d = Inr r \<longrightarrow>
      (\<forall>ch. decode_action a = Inr ch \<and> ch_power ch \<noteq> 0 \<longrightarrow>
         power_consumption (cells (sr_env r) ! current_cell_idx e)
           = tx_power (cells (sr_env r) ! current_cell_idx e) * 0.5)
    \<and> (\<forall>ch. decode_action a = Inr ch \<and> ch_power ch = 0 \<longrightarrow>
         power_consumption (cells (sr_env r) ! current_cell_idx e)
           = power_consumption (cells e ! current_cell_idx e))
    \<and> ((\<forall>c \<in> set (cells e). pc_inv c) \<longrightarrow> (\<forall>c \<in> set (cells (sr_env r)). pc_inv c)))
   \<and> (\<not> use_real_data e0 \<or> data_loader e0 = None \<longrightarrow>
        (\<forall>c \<in> set (cells (fst (reset e0 draws))).
            tx_power c = 40 \<and> power_consumption c = tx_power c * 0.5))"
proof (intro conjI impI allI)
  fix ch
  assume s: "step e a d = Inr r"
  from s obtain ch' where idx: "current_cell_idx e < length (cells e)"
    and dec: "decode_action a = Inr ch'"
    and env: "sr_env r =
       e\<lparr>cells := (cells e)[current_cell_idx e :=
                     simulate_changes (apply_changes (cells e ! current_cell_idx e) ch') ch' d],
         current_cell_idx := (current_cell_idx e + 1) mod num_cells e,
         episode_step := episode_step e + 1\<rparr>"
    by (rule step_InrE)
  have tgt: "cells (sr_env r) ! current_cell_idx e
      = simulate_changes (apply_changes (cells e ! current_cell_idx e) ch') ch' d"
    using idx by (simp add: env)
  {
    assume "decode_action a = Inr ch \<and> ch_power ch \<noteq> 0"
    with dec have "ch_power ch' \<noteq> 0" by simp
    from stepped_cell_pc(1) [OF this]
    show "power_consumption (cells (sr_env r) ! current_cell_idx e)
           = tx_power (cells (sr_env r) ! current_cell_idx e) * 0.5"
      by (simp add: tgt pc_inv_def)
  }
  {
    assume "decode_action a = Inr ch \<and> ch_power ch = 0"
    with dec have "ch_power ch' = 0" by simp
    from stepped_cell_pc(2) [OF this]
    show "power_consumption (cells (sr_env r) ! current_cell_idx e)
           = power_consumption (cells e ! current_cell_idx e)"
      by (simp add: tgt)
  }
next
  assume s: "step e a d = Inr r" and inv: "\<forall>c \<in> set (cells e). pc_inv c"
  from s obtain ch' where idx: "current_cell_idx e < length (cells e)"
    and env: "sr_env r =
       e\<lparr>cells := (cells e)[current_cell_idx e :=
                     simulate_changes (apply_changes (cells e ! current_cell_idx e) ch') ch' d],
         current_cell_idx := (current_cell_idx e + 1) mod num_cells e,
         episode_step := episode_step e + 1\<rparr>"
    by (rule step_InrE)
  from idx inv have "pc_inv (cells e ! current_cell_idx e)" by simp
  then have "pc_inv (cells (sr_env r) ! current_cell_idx e)"
    using idx by (simp add: env stepped_cell_pc(3))
  with step_cells(4) [OF s] inv show "\<forall>c \<in> set (cells (sr_env r)). pc_inv c" by blast
next
  assume "\<not> use_real_data e0 \<or> data_loader e0 = None"
  then show "\<forall>c \<in> set (cells (fst (reset e0 draws))).
      tx_power c = 40 \<and> power_consumption c = tx_power c * 0.5"
    by (auto simp: reset_simulated_mode simulated_cell_def Let_def)
qed

lemma sim_env_pc_inv: "\<forall>c \<in> set (cells sim_env). pc_inv c"
  by (simp add: sim_env_eq simulated_cell_def pc_inv_def)

theorem power_consumption_recomputed_witness:
  "step sim_env 13 example_step_draws = Inr (projr (step sim_env 13 example_step_draws))
   \<and> decode_action 13 = Inr \<lparr>ch_power = 0, ch_tilt = 0, ch_handover = 0\<rparr>
   \<and> list_all pc_inv (cells sim_env)
   \<and> power_consumption (cells (sr_env (projr (step sim_env 13 example_step_draws))) ! 0) = 20
   \<and> list_all pc_inv (cells (sr_env (projr (step sim_env 13 example_step_draws))))
   \<and> step sim_env 26 example_step_draws = Inr (projr (step sim_env 26 example_step_draws))
   \<and> decode_action 26 = Inr \<lparr>ch_power = 3, ch_tilt = 2, ch_handover = 5\<rparr>
   \<and> tx_power (cells (sr_env (projr (step sim_env 26 example_step_draws))) ! 0) = 43
   \<and> power_consumption (cells (sr_env (projr (step sim_env 26 example_step_draws))) ! 0) = 21.5
   \<and> list_all (\<lambda>c. tx_power c = 40 \<and> power_consumption c = 20)
        (cells (fst (reset sim_env example_reset_draws)))"
proof -
  have m: "\<not> use_real_data sim_env \<or> data_loader sim_env = None" by (simp add: sim_env_eq)
  have i: "current_cell_idx sim_env = 0" by (simp add: sim_env_eq)
  have p: "power_consumption (cells sim_env ! 0) = 20"
    by (simp add: sim_env_eq simulated_cell_def)
  have z: "ch_power \<lparr>ch_power = 0, ch_tilt = 0, ch_handover = 0\<rparr> = 0" by simp
  from power_consumption_recomputed [of sim_env 13 example_step_draws
      "projr (step sim_env 13 example_step_draws)" sim_env example_reset_draws]
    sim_env_step_13 sim_env_pc_inv m decode_action_13 z
  have a13: "(power_consumption (cells (sr_env (projr (step sim_env 13 example_step_draws))) ! current_cell_idx sim_env)
           = power_consumption (cells sim_env ! current_cell_idx sim_env))
    \<and> (\<forall>c \<in> set (cells (sr_env (projr (step sim_env 13 example_step_draws)))). pc_inv c)
    \<and> (\<forall>c \<in> set (cells (fst (reset sim_env example_reset_draws))).
        tx_power c = 40 \<and> power_consumption c = tx_power c * 0.5)"
    by blast
  have d26: "decode_action 26 = Inr \<lparr>ch_power = 3, ch_tilt = 2, ch_handover = 5\<rparr>"
    using decode_action_valid [of 26]
    by (simp add: power_changes_def tilt_changes_def handover_changes_def)
  have c: "current_cell_idx sim_env < length (cells sim_env)" "num_cells sim_env \<noteq> 0"
    by (simp_all add: sim_env_eq)
  have "\<not> isl (step sim_env 26 example_step_draws)"
    by (rule step_unfold(3) [OF c(1) d26 c(2)])
  then have s26: "step sim_env 26 example_step_draws = Inr (projr (step sim_env 26 example_step_draws))"
    by (cases "step sim_env 26 example_step_draws") simp_all
  have nz: "ch_power \<lparr>ch_power = 3, ch_tilt = 2, ch_handover = 5\<rparr> \<noteq> 0" by simp
  from power_consumption_recomputed [of sim_env 26 example_step_draws
      "projr (step sim_env 26 example_step_draws)"] s26 d26 nz
  have a26: "power_consumption (cells (sr_env (projr (step sim_env 26 example_step_draws))) ! current_cell_idx sim_env)
      = tx_power (cells (sr_env (projr (step sim_env 26 example_step_draws))) ! current_cell_idx sim_env) * 0.5"
    by blast
  have "tx_power (cells (sr_env (projr (step sim_env 26 example_step_draws))) ! 0)
      = clip (tx_power (cells sim_env ! 0) + 3) 10 50"
    using c(1)
    by (simp add: step_unfold(1) [OF c(1) d26 c(2)] i simulate_changes_frame apply_changes_tx_power)
  also have "\<dots> = 43" by (simp add: sim_env_eq simulated_cell_def clip_def)
  finally have t26: "tx_power (cells (sr_env (projr (step sim_env 26 example_step_draws))) ! 0) = 43" .
  with a26 have p26: "power_consumption (cells (sr_env (projr (step sim_env 26 example_step_draws))) ! 0) = 21.5"
    by (simp add: i)
  from a13 sim_env_step_13 decode_action_13 sim_env_pc_inv p s26 d26 t26 p26 show ?thesis
    by (auto simp: i list_all_iff)
qed

text \<open>
  C3 as stated, for every \<open>reset\<close>, fails: a real-data \<open>reset\<close> copies \<open>power_consumption\<close> from the data
  set. Over a data set whose first cell has 55 dBm and 100 W, the first cell has
  \<open>power_consumption = 100\<close>, not \<open>55 * 0.5\<close>, after \<open>reset\<close>.
\<close>

theorem real_reset_power_consumption:
  "power_consumption (cells (fst (reset real_env example_reset_draws)) ! 0) = 100
   \<and> tx_power (cells (fst (reset real_env example_reset_draws)) ! 0) = 55
   \<and> power_consumption (cells (fst (reset real_env example_reset_draws)) ! 0)
       \<noteq> tx_power (cells (fst (reset real_env example_reset_draws)) ! 0) * 0.5"
proof -
  have "cells (fst (reset real_env example_reset_draws)) ! 0
      = cell_of_real 0 (example_real_cell 55 100)"
    by (simp add: real_env_eq reset_def reset_from_real_data_def Let_def
        example_loader_def enumerate_eq_zip)
  then show ?thesis by (simp add: cell_of_real_def example_real_cell_def)
qed

section \<open>The zero-delta action\<close>

lemma simulate_changes_zero:
  assumes "ch_power ch = 0" and "ch_tilt ch = 0" and "ch_handover ch = 0"
  shows "simulate_changes c ch d = keep_in_range (add_randomness c d)"
  using assms
  by (simp add: simulate_changes_def Let_def power_impact_def tilt_impact_def handover_impact_def)

lemma apply_changes_zero:
  assumes "ch_power ch = 0" and "ch_tilt ch = 0" and "ch_handover ch = 0"
    and "10 \<le> tx_power c \<and> tx_power c \<le> 50"
    and "0 \<le> antenna_tilt c \<and> antenna_tilt c \<le> 10"
    and "50 \<le> handover_threshold c \<and> handover_threshold c \<le> 90"
  shows "apply_changes c ch = c"
  using assms by (simp add: apply_changes_def clip_id)

text \<open>
  C4 (as the code has it). When the targeted cell has \<open>tx_power\<close> in [10,50],
  \<open>antenna_tilt\<close> in [0,10] and \<open>handover_threshold\<close> in [50,90], \<open>step(13)\<close> returns and
  leaves these three as they were. Its \<open>throughput\<close> becomes the old value plus the noise
  draw, clipped to [10,1000]; its \<open>drop_rate\<close> the old value plus the noise draw, clipped
  to [0,0.15]; the draws are within 2 and 0.005 of zero. \<open>interference\<close> and \<open>num_users\<close>
  are only put back into range, and no other field changes.
\<close>

theorem step_13_frame:
  assumes "current_cell_idx e < length (cells e)" and "num_cells e \<noteq> 0"
    and "c = cells e ! current_cell_idx e"
    and "10 \<le> tx_power c \<and> tx_power c \<le> 50"
    and "0 \<le> antenna_tilt c \<and> antenna_tilt c \<le> 10"
    and "50 \<le> handover_threshold c \<and> handover_threshold c \<le> 90"
  shows "\<exists>r. step e 13 d = Inr r
     \<and> tx_power (cells (sr_env r) ! current_cell_idx e) = tx_power c
     \<and> antenna_tilt (cells (sr_env r) ! current_cell_idx e) = antenna_tilt c
     \<and> handover_threshold (cells (sr_env r) ! current_cell_idx e) = handover_threshold c
     \<and> cells (sr_env r) ! current_cell_idx e =
         c\<lparr>throughput := clip (throughput c + sd_noise_throughput d) 10 1000,
           drop_rate := clip (drop_rate c + sd_noise_drop_rate d) 0 0.15,
           interference := clip (interference c) 0 1,
           num_users := max 1 (num_users c)\<rparr>
     \<and> (step_draws_ok d \<longrightarrow> \<bar>sd_noise_throughput d\<bar> \<le> 2 \<and> \<bar>sd_noise_drop_rate d\<bar> \<le> 0.005)"
proof -
  let ?z = "\<lparr>ch_power = 0, ch_tilt = 0, ch_handover = 0\<rparr>"
  from step_succeeds [OF assms(1) decode_action_13 assms(2)]
  obtain r where r: "step e 13 d = Inr r" by blast
  then have "sr_env r = sr_env (projr (step e 13 d))" by simp
  then have "cells (sr_env r) ! current_cell_idx e = simulate_changes (apply_changes c ?z) ?z d"
    using assms(1) by (simp add: step_unfold(1) [OF assms(1) decode_action_13 assms(2)] assms(3))
  also have "\<dots> = keep_in_range (add_randomness c d)"
    using assms(4,5,6) by (simp add: apply_changes_zero simulate_changes_zero)
  finally have c': "cells (sr_env r) ! current_cell_idx e = keep_in_range (add_randomness c d)" .
  have "keep_in_range (add_randomness c d) =
         c\<lparr>throughput := clip (throughput c + sd_noise_throughput d) 10 1000,
           drop_rate := clip (drop_rate c + sd_noise_drop_rate d) 0 0.15,
           interference := clip (interference c) 0 1,
           num_users := max 1 (num_users c)\<rparr>"
    by (simp add: keep_in_range_def add_randomness_def)
  moreover have "step_draws_ok d \<longrightarrow> \<bar>sd_noise_throughput d\<bar> \<le> 2 \<and> \<bar>sd_noise_drop_rate d\<bar> \<le> 0.005"
    unfolding step_draws_ok_def by arith
  ultimately show ?thesis
    using r c' by (simp add: keep_in_range_frame add_randomness_frame)
qed

theorem step_13_frame_witness:
  "current_cell_idx sim_env < length (cells sim_env) \<and> num_cells sim_env \<noteq> 0
   \<and> tx_power (cells sim_env ! 0) = 40 \<and> antenna_tilt (cells sim_env ! 0) = 3
   \<and> handover_threshold (cells sim_env ! 0) = 70
   \<and> step_draws_ok example_step_draws
   \<and> (\<exists>r. step sim_env 13 example_step_draws = Inr r
        \<and> tx_power (cells (sr_env r) ! 0) = 40
        \<and> antenna_tilt (cells (sr_env r) ! 0) = 3
        \<and> handover_threshold (cells (sr_env r) ! 0) = 70
        \<and> throughput (cells (sr_env r) ! 0) = 51
        \<and> drop_rate (cells (sr_env r) ! 0) = 0.051)"
proof -
  have i: "current_cell_idx sim_env < length (cells sim_env)" and n: "num_cells sim_env \<noteq> 0"
    and z: "current_cell_idx sim_env = 0"
    by (simp_all add: sim_env_eq)
  have c: "cells sim_env ! 0 = cells sim_env ! current_cell_idx sim_env" by (simp add: z)
  have v: "tx_power (cells sim_env ! 0) = 40" "antenna_tilt (cells sim_env ! 0) = 3"
    "handover_threshold (cells sim_env ! 0) = 70" "throughput (cells sim_env ! 0) = 50"
    "drop_rate (cells sim_env ! 0) = 0.05"
    by (simp_all add: sim_env_eq simulated_cell_def example_reset_draws_def)
  have b: "10 \<le> tx_power (cells sim_env ! 0) \<and> tx_power (cells sim_env ! 0) \<le> 50"
    "0 \<le> antenna_tilt (cells sim_env ! 0) \<and> antenna_tilt (cells sim_env ! 0) \<le> 10"
    "50 \<le> handover_threshold (cells sim_env ! 0) \<and> handover_threshold (cells sim_env ! 0) \<le> 90"
    by (simp_all add: v)
  from step_13_frame [OF i n c b, of example_step_draws]
  obtain r where r: "step sim_env 13 example_step_draws = Inr r"
    "tx_power (cells (sr_env r) ! 0) = tx_power (cells sim_env ! 0)"
    "antenna_tilt (cells (sr_env r) ! 0) = antenna_tilt (cells sim_env ! 0)"
    "handover_threshold (cells (sr_env r) ! 0) = handover_threshold (cells sim_env ! 0)"
    "cells (sr_env r) ! 0 =
       (cells sim_env ! 0)\<lparr>throughput := clip (throughput (cells sim_env ! 0) + sd_noise_throughput example_step_draws) 10 1000,
           drop_rate := clip (drop_rate (cells sim_env ! 0) + sd_noise_drop_rate example_step_draws) 0 0.15,
           interference := clip (interference (cells sim_env ! 0)) 0 1,
           num_users := max 1 (num_users (cells sim_env ! 0))\<rparr>"
    unfolding z by blast
  have "throughput (cells (sr_env r) ! 0) = 51" "drop_rate (cells (sr_env r) ! 0) = 0.051"
    by (simp_all add: r(5) v example_step_draws_def clip_def)
  with r(1-4) i n v example_draws_ok(3) show ?thesis by auto
qed

text \<open>
  C4 as stated, for every network state, fails outside these bounds: after a real-data \<open>reset\<close> over a data
  set whose first cell transmits at 55 dBm, \<open>step(13)\<close> changes its \<open>tx_power\<close> to 50.
\<close>

theorem step_13_clamps_tx_power:
  "\<not> isl (step real_env 13 example_step_draws)
   \<and> tx_power (cells real_env ! current_cell_idx real_env) = 55
   \<and> tx_power (cells (sr_env (projr (step real_env 13 example_step_draws)))
                 ! current_cell_idx real_env) = 50"
proof -
  have i: "current_cell_idx real_env < length (cells real_env)" "num_cells real_env \<noteq> 0"
    by (simp_all add: real_env_eq)
  have z: "current_cell_idx real_env = 0" by (simp add: real_env_eq)
  have "\<not> isl (step real_env 13 example_step_draws)"
    by (rule step_unfold(3) [OF i(1) decode_action_13 i(2)])
  moreover have "tx_power (cells real_env ! 0) = 55"
    by (simp add: real_env_eq cell_of_real_def example_real_cell_def)
  moreover have "tx_power (cells (sr_env (projr (step real_env 13 example_step_draws))) ! 0)
      = clip (tx_power (cells real_env ! 0) + 0) 10 50"
    using i(1)
    by (simp add: step_unfold(1) [OF i(1) decode_action_13 i(2)] z simulate_changes_frame
        apply_changes_tx_power)
  ultimately show ?thesis by (simp add: z clip_def)
qed

section \<open>The episode horizon\<close>

lemma reset_fields:
  "current_cell_idx (fst (reset e draws)) = 0"
  "episode_step (fst (reset e draws)) = 0"
  "num_cells (fst (reset e draws)) = num_cells e"
  by (simp_all add: reset_def Let_def reset_simulated_def reset_from_real_data_def
      split: bool.splits option.splits)

lemma run_steps_dones:
  assumes "length (cells e) = num_cells e" and "num_cells e \<noteq> 0"
    and "current_cell_idx e < num_cells e"
    and "\<forall>(a, d) \<in> set acts. 0 \<le> a \<and> a \<le> 26"
  shows "\<exists>e' ds. run_steps e acts = Inr (e', ds) \<and> length ds = length acts
           \<and> (\<forall>k < length acts. ds ! k = (episode_step e + k + 1 \<ge> 100))"
  using assms
proof (induction acts arbitrary: e)
  case Nil
  then show ?case by simp
next
  case (Cons x rest)
  obtain a d where x: "x = (a, d)" by (cases x)
  from Cons.prems(4) x have a: "0 \<le> a" "a \<le> 26" by simp_all
  from Cons.prems(1,3) have idx: "current_cell_idx e < length (cells e)" by simp
  from decode_action_valid [OF a] obtain ch where ch: "decode_action a = Inr ch" by blast
  from step_succeeds [OF idx ch Cons.prems(2)] obtain r where r: "step e a d = Inr r" by blast
  from r obtain ch' where env: "sr_env r =
       e\<lparr>cells := (cells e)[current_cell_idx e :=
                     simulate_changes (apply_changes (cells e ! current_cell_idx e) ch') ch' d],
         current_cell_idx := (current_cell_idx e + 1) mod num_cells e,
         episode_step := episode_step e + 1\<rparr>"
    and dn: "sr_done r = (episode_step e + 1 \<ge> 100)"
    by (rule step_InrE)
  have p1: "length (cells (sr_env r)) = num_cells (sr_env r)"
    using Cons.prems(1) by (simp add: env)
  have p2: "num_cells (sr_env r) \<noteq> 0" using Cons.prems(2) by (simp add: env)
  have p3: "current_cell_idx (sr_env r) < num_cells (sr_env r)"
    using Cons.prems(2) by (simp add: env)
  have p4: "\<forall>(a, d) \<in> set rest. 0 \<le> a \<and> a \<le> 26" using Cons.prems(4) by simp
  have st: "episode_step (sr_env r) = episode_step e + 1" by (simp add: env)
  from Cons.IH [OF p1 p2 p3 p4] obtain e' ds where
    ih: "run_steps (sr_env r) rest = Inr (e', ds)" "length ds = length rest"
        "\<forall>k < length rest. ds ! k = (episode_step e + 1 + k + 1 \<ge> 100)"
    unfolding st by blast
  have run: "run_steps e (x # rest) = Inr (e', sr_done r # ds)"
    by (simp add: x r ih(1))
  have "\<forall>k < length (x # rest). (sr_done r # ds) ! k = (episode_step e + k + 1 \<ge> 100)"
  proof (intro allI impI)
    fix k assume k: "k < length (x # rest)"
    show "(sr_done r # ds) ! k = (episode_step e + k + 1 \<ge> 100)"
    proof (cases k)
      case 0
      then show ?thesis by (simp add: dn)
    next
      case (Suc j)
      with k have "j < length rest" by simp
      with ih(3) have "ds ! j = (episode_step e + 1 + j + 1 \<ge> 100)" by blast
      with Suc show ?thesis by simp
    qed
  qed
  with run ih(2) show ?case by simp
qed

lemma hundred_flags:
  assumes "length ds = 100" and "\<forall>k < 100. ds ! k = (k + 1 \<ge> (100::nat))"
  shows "ds = replicate 99 False @ [True]"
proof (rule nth_equalityI)
  show "length ds = length (replicate 99 False @ [True])" using assms(1) by simp
next
  fix k assume "k < length ds"
  with assms(1) have k: "k < 100" by simp
  with assms(2) have "ds ! k = (k + 1 \<ge> 100)" by blast
  moreover have "(replicate 99 False @ [True]) ! k = (k + 1 \<ge> 100)"
    using k by (auto simp: nth_append)
  ultimately show "ds ! k = (replicate 99 False @ [True]) ! k" by simp
qed

lemma reset_real_mode:
  assumes "use_real_data e" and "data_loader e = Some ld"
  shows "cells (fst (reset e draws)) =
           map (\<lambda>(i, rc). cell_of_real i rc)
             (enumerate 0 (ld (num_cells e)
                (case random_seed e of Some s \<Rightarrow> s | None \<Rightarrow> int (episode_count e) + 1)))"
  using assms
  by (cases "random_seed e") (simp_all add: reset_def reset_from_real_data_def Let_def add.commute)

lemma step_index_error:
  "\<not> current_cell_idx e < length (cells e) \<Longrightarrow> step e a d = Inl IndexError"
  by (simp add: step_def py_index_nat)

lemma step_env_fields:
  assumes "step e a d = Inr r"
  shows "current_cell_idx (sr_env r) = (current_cell_idx e + 1) mod num_cells e"
    and "num_cells (sr_env r) = num_cells e"
    and "length (cells (sr_env r)) = length (cells e)"
proof -
  from assms obtain ch where env: "sr_env r =
       e\<lparr>cells := (cells e)[current_cell_idx e :=
                     simulate_changes (apply_changes (cells e ! current_cell_idx e) ch) ch d],
         current_cell_idx := (current_cell_idx e + 1) mod num_cells e,
         episode_step := episode_step e + 1\<rparr>"
    by (rule step_InrE)
  show "current_cell_idx (sr_env r) = (current_cell_idx e + 1) mod num_cells e"
    and "num_cells (sr_env r) = num_cells e"
    and "length (cells (sr_env r)) = length (cells e)"
    by (simp_all add: env)
qed

lemma run_steps_Inl:
  "step e a d = Inl err \<Longrightarrow> run_steps e ((a, d) # rest) = Inl err"
  "step e a d = Inr r \<Longrightarrow> run_steps (sr_env r) rest = Inl err
     \<Longrightarrow> run_steps e ((a, d) # rest) = Inl err"
  by simp_all

lemma real_env_reset:
  "length (cells (fst (reset real_env example_reset_draws))) = 2"
  "num_cells real_env = 2" "use_real_data real_env" "data_loader real_env = Some example_loader"
proof -
  show u: "use_real_data real_env" and l: "data_loader real_env = Some example_loader"
    and n: "num_cells real_env = 2"
    by (simp_all add: real_env_eq)
  show "length (cells (fst (reset real_env example_reset_draws))) = 2"
    by (simp add: reset_real_mode [OF u l] example_loader_def n)
qed

lemma short_env_reset:
  "length (cells (fst (reset short_env example_reset_draws))) = 2"
  "num_cells (fst (reset short_env example_reset_draws)) = 3"
  "current_cell_idx (fst (reset short_env example_reset_draws)) = 0"
proof -
  have u: "use_real_data short_env" and l: "data_loader short_env = Some example_loader"
    and n: "num_cells short_env = 3"
    by (simp_all add: short_env_def init_env_def reset_def reset_from_real_data_def Let_def)
  show "length (cells (fst (reset short_env example_reset_draws))) = 2"
    by (simp add: reset_real_mode [OF u l] example_loader_def n)
  show "num_cells (fst (reset short_env example_reset_draws)) = 3"
    by (simp add: reset_fields n)
  show "current_cell_idx (fst (reset short_env example_reset_draws)) = 0"
    by (rule reset_fields)
qed

text \<open>
  C6 (as the code has it). \<open>reset\<close> sets the step counter to 0. When the network it leaves
  is not empty and holds \<open>num_cells\<close> cells, 100 \<open>step\<close> calls with any action indices of
  the action space 0..26 and any draws all return, and the flags returned are 99 times
  \<open>False\<close>, then \<open>True\<close>. A simulated \<open>reset\<close> always leaves \<open>num_cells\<close> cells; a real-data
  \<open>reset\<close> leaves one cell per record the loader returns for \<open>num_cells\<close> and the seed.
  The flag of a \<open>step\<close> is exactly ``the incremented step counter is at least 100''.
\<close>

theorem hundred_steps_terminal:
  "(num_cells e0 \<noteq> 0 \<and> length (cells (fst (reset e0 draws))) = num_cells e0
      \<and> length acts = 100 \<and> (\<forall>(a, d) \<in> set acts. 0 \<le> a \<and> a \<le> 26) \<longrightarrow>
      (\<exists>e'. run_steps (fst (reset e0 draws)) acts = Inr (e', replicate 99 False @ [True])))
   \<and> (\<not> use_real_data e0 \<or> data_loader e0 = None \<longrightarrow>
        length (cells (fst (reset e0 draws))) = num_cells e0)
   \<and> (use_real_data e0 \<and> data_loader e0 = Some ld \<longrightarrow>
        cells (fst (reset e0 draws)) =
          map (\<lambda>(i, rc). cell_of_real i rc)
            (enumerate 0 (ld (num_cells e0)
               (case random_seed e0 of Some s \<Rightarrow> s | None \<Rightarrow> int (episode_count e0) + 1))))
   \<and> episode_step (fst (reset e0 draws)) = 0
   \<and> (step e a d = Inr r \<longrightarrow> sr_done r = (episode_step e + 1 \<ge> 100))"
proof (intro conjI impI)
  assume h: "num_cells e0 \<noteq> 0 \<and> length (cells (fst (reset e0 draws))) = num_cells e0
      \<and> length acts = 100 \<and> (\<forall>(a, d) \<in> set acts. 0 \<le> a \<and> a \<le> 26)"
  let ?e = "fst (reset e0 draws)"
  have p1: "length (cells ?e) = num_cells ?e" using h by (simp add: reset_fields)
  have p2: "num_cells ?e \<noteq> 0" using h by (simp add: reset_fields)
  have p3: "current_cell_idx ?e < num_cells ?e" using h by (simp add: reset_fields)
  have p4: "\<forall>(a, d) \<in> set acts. 0 \<le> a \<and> a \<le> 26" using h by blast
  from run_steps_dones [OF p1 p2 p3 p4] obtain e' ds where
    r: "run_steps ?e acts = Inr (e', ds)" "length ds = length acts"
       "\<forall>k < length acts. ds ! k = (episode_step ?e + k + 1 \<ge> 100)"
    by blast
  from h r(2) have l: "length ds = 100" by simp
  from h r(3) have "\<forall>k < 100. ds ! k = (k + 1 \<ge> (100::nat))" by (simp add: reset_fields)
  with l have "ds = replicate 99 False @ [True]" by (rule hundred_flags)
  with r(1) show "\<exists>e'. run_steps ?e acts = Inr (e', replicate 99 False @ [True])" by blast
next
  assume "\<not> use_real_data e0 \<or> data_loader e0 = None"
  then show "length (cells (fst (reset e0 draws))) = num_cells e0"
    by (simp add: reset_simulated_mode)
next
  assume "use_real_data e0 \<and> data_loader e0 = Some ld"
  then show "cells (fst (reset e0 draws)) =
          map (\<lambda>(i, rc). cell_of_real i rc)
            (enumerate 0 (ld (num_cells e0)
               (case random_seed e0 of Some s \<Rightarrow> s | None \<Rightarrow> int (episode_count e0) + 1)))"
    by (simp add: reset_real_mode)
next
  show "episode_step (fst (reset e0 draws)) = 0" by (rule reset_fields)
next
  assume "step e a d = Inr r"
  then show "sr_done r = (episode_step e + 1 \<ge> 100)" by (rule step_InrE)
qed

theorem hundred_steps_terminal_witness:
  "num_cells sim_env \<noteq> 0
   \<and> length (cells (fst (reset sim_env example_reset_draws))) = num_cells sim_env
   \<and> length (replicate 100 (13::int, example_step_draws)) = 100
   \<and> list_all (\<lambda>(a, d). 0 \<le> a \<and> a \<le> 26) (replicate 100 (13::int, example_step_draws))
   \<and> \<not> isl (run_steps (fst (reset sim_env example_reset_draws))
               (replicate 100 (13, example_step_draws)))
   \<and> snd (projr (run_steps (fst (reset sim_env example_reset_draws))
               (replicate 100 (13, example_step_draws)))) = replicate 99 False @ [True]
   \<and> use_real_data real_env \<and> data_loader real_env = Some example_loader
   \<and> map tx_power (cells (fst (reset real_env example_reset_draws))) = [55, 60]
   \<and> length (cells (fst (reset real_env example_reset_draws))) = num_cells real_env
   \<and> \<not> isl (run_steps (fst (reset real_env example_reset_draws))
               (replicate 100 (13, example_step_draws)))
   \<and> snd (projr (run_steps (fst (reset real_env example_reset_draws))
               (replicate 100 (13, example_step_draws)))) = replicate 99 False @ [True]
   \<and> step sim_env 13 example_step_draws = Inr (projr (step sim_env 13 example_step_draws))
   \<and> sr_done (projr (step sim_env 13 example_step_draws)) = False"
proof -
  have n: "num_cells sim_env \<noteq> 0" by (simp add: sim_env_eq)
  have m: "\<not> use_real_data sim_env \<or> data_loader sim_env = None" by (simp add: sim_env_eq)
  have l: "length (replicate 100 (13::int, example_step_draws)) = 100" by simp
  have a: "\<forall>(a, d) \<in> set (replicate 100 (13::int, example_step_draws)). 0 \<le> a \<and> a \<le> 26"
    by simp
  note t = hundred_steps_terminal [of sim_env example_reset_draws
      "replicate 100 (13, example_step_draws)" example_loader sim_env 13 example_step_draws
      "projr (step sim_env 13 example_step_draws)"]
  from t m have c: "length (cells (fst (reset sim_env example_reset_draws))) = num_cells sim_env"
    by blast
  from t n c l a obtain e' where
    s: "run_steps (fst (reset sim_env example_reset_draws)) (replicate 100 (13, example_step_draws))
       = Inr (e', replicate 99 False @ [True])"
    by blast
  from t sim_env_step_13
  have "sr_done (projr (step sim_env 13 example_step_draws)) = (episode_step sim_env + 1 \<ge> 100)"
    by blast
  then have f: "sr_done (projr (step sim_env 13 example_step_draws)) = False"
    by (simp add: sim_env_eq)
  note t' = hundred_steps_terminal [of real_env example_reset_draws
      "replicate 100 (13, example_step_draws)" example_loader]
  have n': "num_cells real_env \<noteq> 0" by (simp add: real_env_reset)
  from t' real_env_reset(3,4)
  have cs: "cells (fst (reset real_env example_reset_draws)) =
      map (\<lambda>(i, rc). cell_of_real i rc)
        (enumerate 0 (example_loader (num_cells real_env)
           (case random_seed real_env of Some s \<Rightarrow> s | None \<Rightarrow> int (episode_count real_env) + 1)))"
    by blast
  have tx: "map tx_power (cells (fst (reset real_env example_reset_draws))) = [55, 60]"
    unfolding cs
    by (simp add: real_env_reset(2) example_loader_def enumerate_eq_zip cell_of_real_def
        example_real_cell_def)
  then have "length (map tx_power (cells (fst (reset real_env example_reset_draws)))) = 2"
    by simp
  then have c': "length (cells (fst (reset real_env example_reset_draws))) = num_cells real_env"
    by (simp add: real_env_reset(2))
  from t' n' c' l a obtain e'' where
    s': "run_steps (fst (reset real_env example_reset_draws)) (replicate 100 (13, example_step_draws))
       = Inr (e'', replicate 99 False @ [True])"
    by blast
  from n c l a s f real_env_reset(3,4) tx c' s' sim_env_step_13 show ?thesis
    by (simp add: list_all_iff)
qed

text \<open>
  C6 as stated, for every fresh \<open>reset\<close>, fails: the environment built for 3 cells over a
  data set of 2 cells holds 2 cells after its real-data \<open>reset\<close>; the first two \<open>step\<close>
  calls return, the third reads \<open>cells[2]\<close> and raises \<open>IndexError\<close>.
\<close>

theorem hundred_steps_short_data_set:
  "run_steps (fst (reset short_env example_reset_draws)) (replicate 100 (13, example_step_draws))
     = Inl IndexError"
proof -
  let ?e = "fst (reset short_env example_reset_draws)"
  let ?x = "(13::int, example_step_draws)"
  have i0: "current_cell_idx ?e < length (cells ?e)" and n0: "num_cells ?e \<noteq> 0"
    by (simp_all add: short_env_reset)
  from step_succeeds [OF i0 decode_action_13 n0] obtain r1 where
    r1: "step ?e 13 example_step_draws = Inr r1" by blast
  have e1: "current_cell_idx (sr_env r1) = 1" "num_cells (sr_env r1) = 3"
    "length (cells (sr_env r1)) = 2"
    using step_env_fields [OF r1] by (simp_all add: short_env_reset)
  then have i1: "current_cell_idx (sr_env r1) < length (cells (sr_env r1))"
    and n1: "num_cells (sr_env r1) \<noteq> 0" by simp_all
  from step_succeeds [OF i1 decode_action_13 n1] obtain r2 where
    r2: "step (sr_env r1) 13 example_step_draws = Inr r2" by blast
  have e2: "current_cell_idx (sr_env r2) = 2" "length (cells (sr_env r2)) = 2"
    using step_env_fields [OF r2] by (simp_all add: e1)
  then have "\<not> current_cell_idx (sr_env r2) < length (cells (sr_env r2))" by simp
  then have r3: "step (sr_env r2) 13 example_step_draws = Inl IndexError"
    by (rule step_index_error)
  have "(100::nat) = Suc (Suc (Suc 97))" by simp
  then have rep: "replicate 100 ?x = ?x # ?x # ?x # replicate 97 ?x"
    by (simp only: replicate_Suc)
  from r3 have "run_steps (sr_env r2) (?x # replicate 97 ?x) = Inl IndexError"
    by (rule run_steps_Inl(1))
  with r2 have "run_steps (sr_env r1) (?x # ?x # replicate 97 ?x) = Inl IndexError"
    by (rule run_steps_Inl(2))
  with r1 have "run_steps ?e (?x # ?x # ?x # replicate 97 ?x) = Inl IndexError"
    by (rule run_steps_Inl(2))
  then show ?thesis by (simp only: rep)
qed

section \<open>The seed in simulated mode\<close>

text \<open>
  C9 at a concrete input. The environment is built in simulated mode with 10 cells and
  seed 42; its \<open>reset\<close> is called twice. \<open>_reset_simulated\<close> never reads \<open>random_seed\<close>: the
  cells are the draws, and the two calls take consecutive draws of the process-global
  generator (here the draws 10..19 and 20..29 of \<open>example_reset_draws\<close>, the constructor
  having taken 0..9). The seed is the same and the cells differ.
\<close>

theorem reset_simulated_same_seed_differs:
  "random_seed sim_env10 = Some 42
   \<and> random_seed (fst (reset sim_env10 (\<lambda>i. example_reset_draws (10 + i)))) = Some 42
   \<and> num_users (cells (fst (reset sim_env10 (\<lambda>i. example_reset_draws (10 + i)))) ! 0) = 60
   \<and> num_users (cells (fst (reset (fst (reset sim_env10 (\<lambda>i. example_reset_draws (10 + i))))
                                   (\<lambda>i. example_reset_draws (20 + i)))) ! 0) = 70
   \<and> cells (fst (reset sim_env10 (\<lambda>i. example_reset_draws (10 + i))))
       \<noteq> cells (fst (reset (fst (reset sim_env10 (\<lambda>i. example_reset_draws (10 + i))))
                            (\<lambda>i. example_reset_draws (20 + i))))"
proof -
  let ?e1 = "fst (reset sim_env10 (\<lambda>i. example_reset_draws (10 + i)))"
  let ?e2 = "fst (reset ?e1 (\<lambda>i. example_reset_draws (20 + i)))"
  have m0: "\<not> use_real_data sim_env10 \<or> data_loader sim_env10 = None"
    and n0: "num_cells sim_env10 = 10" and s0: "random_seed sim_env10 = Some 42"
    by (simp_all add: sim_env10_def init_env_def reset_def Let_def reset_simulated_def)
  have e1: "?e1 = sim_env10\<lparr>cells := map (\<lambda>i. simulated_cell i (example_reset_draws (10 + i))) [0..<num_cells sim_env10],
             episode_count := episode_count sim_env10 + 1,
             current_cell_idx := 0, episode_step := 0\<rparr>"
    by (rule reset_simulated_mode [OF m0])
  have m1: "\<not> use_real_data ?e1 \<or> data_loader ?e1 = None" using m0 by (simp add: e1)
  have n1: "num_cells ?e1 = 10" by (simp add: reset_fields n0)
  have s1: "random_seed ?e1 = Some 42" by (simp add: e1 s0)
  have c1: "cells ?e1 ! 0 = simulated_cell 0 (example_reset_draws 10)"
    by (simp add: e1 n0)
  have "cells ?e2 = map (\<lambda>i. simulated_cell i (example_reset_draws (20 + i))) [0..<num_cells ?e1]"
    by (simp add: reset_simulated_mode [OF m1])
  then have c2: "cells ?e2 ! 0 = simulated_cell 0 (example_reset_draws 20)"
    by (simp add: n1)
  have u1: "num_users (cells ?e1 ! 0) = 60"
    unfolding c1 by (simp add: simulated_cell_def example_reset_draws_def)
  have u2: "num_users (cells ?e2 ! 0) = 70"
    unfolding c2 by (simp add: simulated_cell_def example_reset_draws_def)
  from u1 u2 have "cells ?e1 \<noteq> cells ?e2" by auto
  with s0 s1 u1 u2 show ?thesis by simp
qed

section \<open>Powers of the decay factor\<close>

lemma interval_power_add:
  fixes q :: real
  assumes "l1 \<le> q ^ m \<and> q ^ m \<le> u1" and "l2 \<le> q ^ n \<and> q ^ n \<le> u2"
    and "0 \<le> l1" and "0 \<le> l2" and "l \<le> l1 * l2" and "u1 * u2 \<le> u" and "k = m + n"
  shows "l \<le> q ^ k \<and> q ^ k \<le> u"
proof -
  have "l1 * l2 \<le> q ^ m * q ^ n"
    using assms(1,2,3,4) by (intro mult_mono) auto
  moreover have "q ^ m * q ^ n \<le> u1 * u2"
    using assms(1,2,3,4) by (intro mult_mono) auto
  ultimately show ?thesis
    using assms(5,6,7) by (simp add: power_add)
qed

lemma decay_power_bounds:
  fixes q :: real
  assumes "q = 199 / 200"
  shows "1 / 100 < q ^ 918" and "q ^ 919 < 1 / 100"
proof -
  have b1: "199 / 200 \<le> q ^ 1 \<and> q ^ 1 \<le> 199 / 200" using assms by simp
  have b2: "39601 / 40000 \<le> q ^ 2 \<and> q ^ 2 \<le> 39601 / 40000"
    by (rule interval_power_add [OF b1 b1]) simp_all
  have b4: "1568239201 / 1600000000 \<le> q ^ 4 \<and> q ^ 4 \<le> 1568239201 / 1600000000"
    by (rule interval_power_add [OF b2 b2]) simp_all
  have b8: "1537108869720699 / 1600000000000000 \<le> q ^ 8 \<and> q ^ 8 \<le> 240173260893859219 / 250000000000000000"
    by (rule interval_power_add [OF b4 b4]) simp_all
  have b16: "461465561987118127 / 500000000000000000 \<le> q ^ 16 \<and> q ^ 16 \<le> 922931123974236257 / 1000000000000000000"
    by (rule interval_power_add [OF b8 b8]) simp_all
  have b32: "851801859600347049 / 1000000000000000000 \<le> q ^ 32 \<and> q ^ 32 \<le> 53237616225021691 / 62500000000000000"
    by (rule interval_power_add [OF b16 b16]) simp_all
  have b64: "362783204009304673 / 500000000000000000 \<le> q ^ 64 \<and> q ^ 64 \<le> 725566408018609359 / 1000000000000000000"
    by (rule interval_power_add [OF b32 b32]) simp_all
  have b128: "65805826555628387 / 125000000000000000 \<le> q ^ 128 \<and> q ^ 128 \<le> 131611653111256779 / 250000000000000000"
    by (rule interval_power_add [OF b64 b64]) simp_all
  have b256: "138573017877422279 / 500000000000000000 \<le> q ^ 256 \<and> q ^ 256 \<le> 13857301787742229 / 50000000000000000"
    by (rule interval_power_add [OF b128 b128]) simp_all
  have b512: "38404962567312789 / 500000000000000000 \<le> q ^ 512 \<and> q ^ 512 \<le> 76809925134625591 / 1000000000000000000"
    by (rule interval_power_add [OF b256 b256]) simp_all
  have b768: "10643783128843937 / 500000000000000000 \<le> q ^ 768 \<and> q ^ 768 \<le> 532189156442197 / 25000000000000000"
    by (rule interval_power_add [OF b512 b256]) simp_all
  have b896: "2801691785889711 / 250000000000000000 \<le> q ^ 896 \<and> q ^ 896 \<le> 175105736618107 / 15625000000000000"
    by (rule interval_power_add [OF b768 b128]) simp_all
  have b912: "80805267155643 / 7812500000000000 \<le> q ^ 912 \<and> q ^ 912 \<le> 10343074195922309 / 1000000000000000000"
    by (rule interval_power_add [OF b896 b16]) simp_all
  have b916: "10137759008060569 / 1000000000000000000 \<le> q ^ 916 \<and> q ^ 916 \<le> 405510360322423 / 40000000000000000"
    by (rule interval_power_add [OF b912 b4]) simp_all
  have b918: "2509158715488791 / 250000000000000000 \<le> q ^ 918 \<and> q ^ 918 \<le> 10036634861955171 / 1000000000000000000"
    by (rule interval_power_add [OF b916 b2]) simp_all
  have b919: "2496612921911347 / 250000000000000000 \<le> q ^ 919 \<and> q ^ 919 \<le> 2496612921911349 / 250000000000000000"
    by (rule interval_power_add [OF b918 b1]) simp_all
  from b918 show "1 / 100 < q ^ 918" by simp
  from b919 show "q ^ 919 < 1 / 100" by simp
qed

section \<open>The agent: replay, target network and epsilon\<close>

lemma replay_underfilled:
  "length (memory ag) < batch_size ag \<Longrightarrow> replay tc ag smp = Inr (None, ag)"
  by (simp add: replay_def)

lemma replay_filled:
  assumes "\<not> length (memory ag) < batch_size ag" and "replay tc ag smp = Inr (res, ag')"
  shows "\<exists>loss q' o'. res = Some loss
      \<and> ag' = ag\<lparr>q_network := q', optimizer := o',
                epsilon := (if epsilon ag > epsilon_min ag then epsilon ag * epsilon_decay ag
                            else epsilon ag)\<rparr>"
proof -
  let ?batch = "smp (memory ag) (batch_size ag)"
  from assms obtain cur where cur: "collect_err (current_q_value tc ag) ?batch = Inr cur"
    by (cases "collect_err (current_q_value tc ag) ?batch")
       (simp_all add: replay_def Let_def bind_err_def)
  from assms cur obtain tgt where tgt: "collect_err (target_q_value tc ag) ?batch = Inr tgt"
    by (cases "collect_err (target_q_value tc ag) ?batch")
       (simp_all add: replay_def Let_def bind_err_def)
  obtain q' o' where st: "adam_step tc (q_network ag) (optimizer ag)
      (map (\<lambda>((state, action, reward, next_state, dn), t). (state, action, t)) (zip ?batch tgt))
      = (q', o')"
    by (cases "adam_step tc (q_network ag) (optimizer ag)
      (map (\<lambda>((state, action, reward, next_state, dn), t). (state, action, t)) (zip ?batch tgt))")
  from assms cur tgt st have "res = Some (mse_loss cur tgt)"
    and "ag' = ag\<lparr>q_network := q', optimizer := o',
                epsilon := (if epsilon ag > epsilon_min ag then epsilon ag * epsilon_decay ag
                            else epsilon ag)\<rparr>"
    by (auto simp: replay_def Let_def bind_err_def split: if_splits)
  then show ?thesis by blast
qed

lemma replay_cases:
  assumes "replay tc ag smp = Inr (res, ag')"
  shows "(length (memory ag) < batch_size ag \<and> res = None \<and> ag' = ag)
       \<or> (batch_size ag \<le> length (memory ag) \<and>
          (\<exists>loss q' o'. res = Some loss
             \<and> ag' = ag\<lparr>q_network := q', optimizer := o',
                  epsilon := (if epsilon ag > epsilon_min ag then epsilon ag * epsilon_decay ag
                              else epsilon ag)\<rparr>))"
proof (cases "length (memory ag) < batch_size ag")
  case True
  with assms replay_underfilled [OF True, of tc smp] show ?thesis by simp
next
  case False
  from replay_filled [OF False assms] False show ?thesis by simp
qed

lemma replay_frame:
  assumes "replay tc ag smp = Inr (res, ag')"
  shows "target_network ag' = target_network ag" and "memory ag' = memory ag"
    and "epsilon_min ag' = epsilon_min ag" and "epsilon_decay ag' = epsilon_decay ag"
    and "batch_size ag' = batch_size ag" and "memory_size ag' = memory_size ag"
    and "epsilon ag' = (if res \<noteq> None \<and> epsilon ag > epsilon_min ag
                        then epsilon ag * epsilon_decay ag else epsilon ag)"
  using replay_cases [OF assms] by auto

lemma apply_call_frame:
  assumes "apply_call tc ag c = Inr (res, ag')"
  shows "target_network ag' = target_network ag"
    and "epsilon_min ag' = epsilon_min ag" and "epsilon_decay ag' = epsilon_decay ag"
    and "epsilon ag' = (if trained res \<and> epsilon ag > epsilon_min ag
                        then epsilon ag * epsilon_decay ag else epsilon ag)"
proof -
  have "target_network ag' = target_network ag
      \<and> epsilon_min ag' = epsilon_min ag \<and> epsilon_decay ag' = epsilon_decay ag
      \<and> epsilon ag' = (if trained res \<and> epsilon ag > epsilon_min ag
                        then epsilon ag * epsilon_decay ag else epsilon ag)"
  proof (cases c)
    case (Remember ex)
    with assms show ?thesis by (auto simp: apply_call_def remember_def Let_def)
  next
    case (Act state training u k)
    with assms show ?thesis
      by (cases "act tc ag state training u k") (auto simp: apply_call_def bind_err_def)
  next
    case (Replay smp)
    show ?thesis
    proof (cases "replay tc ag smp")
      case (Inl e)
      with assms Replay show ?thesis by (simp add: apply_call_def bind_err_def)
    next
      case (Inr p)
      obtain r a where p: "p = (r, a)" by (cases p)
      with assms Replay Inr have e: "res = Replayed r" "ag' = a"
        by (simp_all add: apply_call_def bind_err_def)
      from Inr p have rp: "replay tc ag smp = Inr (r, ag')" by (simp add: e)
      have "trained res = (r \<noteq> None)" by (cases r) (simp_all add: e)
      with replay_frame [OF rp] show ?thesis by simp
    qed
  qed
  then show "target_network ag' = target_network ag"
    and "epsilon_min ag' = epsilon_min ag" and "epsilon_decay ag' = epsilon_decay ag"
    and "epsilon ag' = (if trained res \<and> epsilon ag > epsilon_min ag
                        then epsilon ag * epsilon_decay ag else epsilon ag)"
    by simp_all
qed

lemma run_calls_ConsE:
  assumes "run_calls tc ag (c # cs) = Inr (rs, ag'')"
  obtains res ag' rs' where "apply_call tc ag c = Inr (res, ag')"
    and "run_calls tc ag' cs = Inr (rs', ag'')" and "rs = res # rs'"
proof -
  from assms obtain res ag' where a: "apply_call tc ag c = Inr (res, ag')"
    by (cases "apply_call tc ag c") auto
  with assms obtain rs' ag2 where r: "run_calls tc ag' cs = Inr (rs', ag2)"
    by (cases "run_calls tc ag' cs") auto
  with assms a have "rs = res # rs'" "ag'' = ag2" by simp_all
  with a r show thesis by (intro that) simp_all
qed

lemma run_calls_target:
  "run_calls tc ag cs = Inr (rs, ag') \<Longrightarrow> target_network ag' = target_network ag"
proof (induction cs arbitrary: ag rs)
  case Nil
  then show ?case by simp
next
  case (Cons c cs)
  from Cons.prems obtain res ag1 rs' where a: "apply_call tc ag c = Inr (res, ag1)"
    and r: "run_calls tc ag1 cs = Inr (rs', ag')"
    by (rule run_calls_ConsE)
  from Cons.IH [OF r] apply_call_frame(1) [OF a] show ?case by simp
qed

lemma run_calls_append:
  assumes "run_calls tc ag cs1 = Inr (rs1, ag1)" and "run_calls tc ag1 cs2 = Inr (rs2, ag2)"
  shows "run_calls tc ag (cs1 @ cs2) = Inr (rs1 @ rs2, ag2)"
  using assms
proof (induction cs1 arbitrary: ag rs1)
  case Nil
  then show ?case by simp
next
  case (Cons c cs)
  from Cons.prems(1) obtain res ag' rs' where a: "apply_call tc ag c = Inr (res, ag')"
    and r: "run_calls tc ag' cs = Inr (rs', ag1)" and e: "rs1 = res # rs'"
    by (rule run_calls_ConsE)
  from Cons.IH [OF r Cons.prems(2)] a e show ?case by simp
qed

lemma epsilon_step:
  fixes q m :: real
  assumes "0 < q" and "q \<le> 1" and "m < q ^ N" and "q ^ Suc N \<le> m"
  shows "(if t \<and> m < q ^ min k (Suc N) then q ^ min k (Suc N) * q else q ^ min k (Suc N))
         = q ^ min (k + (if t then 1 else 0)) (Suc N)"
proof (cases t)
  case False
  then show ?thesis by simp
next
  case True
  show ?thesis
  proof (cases "k \<le> N")
    case le: True
    then have "q ^ N \<le> q ^ k" using assms(1,2) by (intro power_decreasing) simp_all
    with assms(3) have "m < q ^ k" by simp
    moreover from le have "min k (Suc N) = k" "min (k + 1) (Suc N) = Suc k" by simp_all
    ultimately show ?thesis using True by simp
  next
    case gt: False
    then have "min k (Suc N) = Suc N" "min (k + 1) (Suc N) = Suc N" by simp_all
    with assms(4) True show ?thesis by simp
  qed
qed

lemma trainings_Cons: "trainings (r # rs) = (if trained r then 1 else 0) + trainings rs"
  by (simp add: trainings_def)

lemma run_calls_epsilon:
  fixes q m :: real
  assumes "0 < q" and "q \<le> 1" and "m < q ^ N" and "q ^ Suc N \<le> m"
    and "epsilon_min ag = m" and "epsilon_decay ag = q" and "epsilon ag = q ^ min k (Suc N)"
    and "run_calls tc ag cs = Inr (rs, ag')"
  shows "epsilon ag' = q ^ min (k + trainings rs) (Suc N)
         \<and> epsilon_min ag' = m \<and> epsilon_decay ag' = q"
  using assms(5-8)
proof (induction cs arbitrary: ag k rs)
  case Nil
  then show ?case by (simp add: trainings_def)
next
  case (Cons c cs)
  from Cons.prems(4) obtain res ag1 rs' where a: "apply_call tc ag c = Inr (res, ag1)"
    and r: "run_calls tc ag1 cs = Inr (rs', ag')" and e: "rs = res # rs'"
    by (rule run_calls_ConsE)
  have m1: "epsilon_min ag1 = m" and d1: "epsilon_decay ag1 = q"
    using apply_call_frame(2,3) [OF a] Cons.prems(1,2) by simp_all
  have "epsilon ag1 = (if trained res \<and> m < q ^ min k (Suc N)
                       then q ^ min k (Suc N) * q else q ^ min k (Suc N))"
    using apply_call_frame(4) [OF a] Cons.prems(1,2,3) by simp
  also have "\<dots> = q ^ min (k + (if trained res then 1 else 0)) (Suc N)"
    by (rule epsilon_step [OF assms(1-4)])
  finally have e1: "epsilon ag1 = q ^ min (k + (if trained res then 1 else 0)) (Suc N)" .
  from Cons.IH [OF m1 d1 e1 r]
  show ?case by (simp add: e trainings_Cons add.assoc)
qed

lemma init_agent_fields:
  "epsilon (init_agent ssize asize q0 t0 o0) = 1"
  "epsilon_min (init_agent ssize asize q0 t0 o0) = 1 / 100"
  "epsilon_decay (init_agent ssize asize q0 t0 o0) = 199 / 200"
  "batch_size (init_agent ssize asize q0 t0 o0) = 64"
  "memory_size (init_agent ssize asize q0 t0 o0) = 10000"
  "memory (init_agent ssize asize q0 t0 o0) = []"
  "q_network (init_agent ssize asize q0 t0 o0) = q0"
  "target_network (init_agent ssize asize q0 t0 o0) = q0"
  "optimizer (init_agent ssize asize q0 t0 o0) = o0"
  by (simp_all add: init_agent_def update_target_network_def)

lemma init_agent_run_epsilon:
  fixes q :: real
  assumes "q = 199 / 200"
    and "run_calls tc (init_agent ssize asize q0 t0 o0) cs = Inr (rs, ag)"
  shows "epsilon ag = q ^ min (trainings rs) 919"
    and "1 / 100 * q < epsilon ag" and "epsilon ag \<le> 1"
    and "919 \<le> trainings rs \<Longrightarrow> epsilon ag < 1 / 100"
    and "trainings rs \<le> 918 \<Longrightarrow> 1 / 100 < epsilon ag"
proof -
  have q: "0 < q" "q \<le> 1" using assms(1) by simp_all
  have lo: "1 / 100 < q ^ 918" using assms(1) by (rule decay_power_bounds)
  have "q ^ 919 < 1 / 100" using assms(1) by (rule decay_power_bounds)
  then have hi: "q ^ Suc 918 < 1 / 100" by (simp only: eval_nat_numeral)
  have s: "Suc 918 = 919" by simp
  let ?a = "init_agent ssize asize q0 t0 o0"
  have "epsilon ?a = q ^ min 0 (Suc 918)" by (simp add: init_agent_fields)
  from run_calls_epsilon [OF q lo less_imp_le [OF hi] _ _ this assms(2)]
  have "epsilon ag = q ^ min (0 + trainings rs) (Suc 918)"
    using assms(1) by (simp only: init_agent_fields)
  then show e: "epsilon ag = q ^ min (trainings rs) 919" by (simp only: s add_0)
  have "q ^ 919 \<le> q ^ min (trainings rs) 919"
    using q by (intro power_decreasing) simp_all
  moreover have "1 / 100 * q < q ^ 918 * q" using lo q(1) by simp
  then have "1 / 100 * q < q ^ Suc 918" by (simp only: power_Suc2)
  ultimately show "1 / 100 * q < epsilon ag" by (simp only: e s)
  show "epsilon ag \<le> 1" unfolding e using q by (intro power_le_one) simp_all
  {
    assume "919 \<le> trainings rs"
    then have "min (trainings rs) 919 = 919" by simp
    with hi show "epsilon ag < 1 / 100" by (simp only: e s)
  }
  {
    assume "trainings rs \<le> 918"
    then have "q ^ 918 \<le> q ^ min (trainings rs) 919"
      using q by (intro power_decreasing) simp_all
    with lo show "1 / 100 < epsilon ag" by (simp only: e)
  }
qed

section \<open>Runs of the example agent\<close>

lemma collect_err_replicate:
  "f x = Inr y \<Longrightarrow> collect_err f (replicate n x) = Inr (replicate n y)"
  by (induction n) simp_all

lemma example_replay:
  assumes "memory ag = replicate 64 example_experience" and "batch_size ag = 64"
  shows "\<exists>loss. replay example_torch ag example_sample =
           Inr (Some loss,
                ag\<lparr>q_network := (q_network ag)\<lparr>fc4 := Suc (fc4 (q_network ag))\<rparr>,
                   optimizer := Suc (optimizer ag),
                   epsilon := (if epsilon ag > epsilon_min ag
                               then epsilon ag * epsilon_decay ag else epsilon ag)\<rparr>)"
proof -
  have b: "example_sample (replicate 64 example_experience) 64 = replicate 64 example_experience"
    by (simp add: example_sample_def)
  have c: "current_q_value example_torch ag example_experience = Inr (real (fc4 (q_network ag)))"
    by (simp add: current_q_value_def example_experience_def forward_def example_torch_def)
  have t: "target_q_value example_torch ag example_experience =
             Inr (1 + gamma ag * real (fc4 (target_network ag)))"
    by (simp add: target_q_value_def example_experience_def forward_def example_torch_def
        list_max_def)
  have a: "adam_step example_torch = (\<lambda>q opt b. (q\<lparr>fc4 := Suc (fc4 q)\<rparr>, Suc opt))"
    by (simp add: example_torch_def)
  have cc: "collect_err (current_q_value example_torch ag) (replicate 64 example_experience)
      = Inr (replicate 64 (real (fc4 (q_network ag))))"
    using c by (rule collect_err_replicate)
  have tt: "collect_err (target_q_value example_torch ag) (replicate 64 example_experience)
      = Inr (replicate 64 (1 + gamma ag * real (fc4 (target_network ag))))"
    using t by (rule collect_err_replicate)
  show ?thesis
    by (simp add: replay_def assms b bind_err_def cc tt a Let_def)
qed

lemma example_run_replays:
  assumes "memory ag = replicate 64 example_experience" and "batch_size ag = 64"
  shows "\<exists>rs ag'. run_calls example_torch ag (replicate n (Replay example_sample)) = Inr (rs, ag')
           \<and> trainings rs = n
           \<and> memory ag' = replicate 64 example_experience \<and> batch_size ag' = 64
           \<and> epsilon_min ag' = epsilon_min ag"
  using assms
proof (induction n arbitrary: ag)
  case 0
  then show ?case by (simp add: trainings_def)
next
  case (Suc n)
  from example_replay [OF Suc.prems] obtain loss ag1 where
    r: "replay example_torch ag example_sample = Inr (Some loss, ag1)" by blast
  from replay_frame(2,5) [OF r] Suc.prems
  have "memory ag1 = replicate 64 example_experience" "batch_size ag1 = 64" by simp_all
  from Suc.IH [OF this] obtain rs ag' where
    ih: "run_calls example_torch ag1 (replicate n (Replay example_sample)) = Inr (rs, ag')"
        "trainings rs = n"
        "memory ag' = replicate 64 example_experience" "batch_size ag' = 64"
        "epsilon_min ag' = epsilon_min ag1" by blast
  have "apply_call example_torch ag (Replay example_sample) = Inr (Replayed (Some loss), ag1)"
    by (simp add: apply_call_def bind_err_def r)
  with ih have "run_calls example_torch ag (replicate (Suc n) (Replay example_sample))
      = Inr (Replayed (Some loss) # rs, ag')"
    by simp
  moreover have "trainings (Replayed (Some loss) # rs) = Suc n"
    by (simp add: trainings_Cons ih(2))
  moreover have "epsilon_min ag' = epsilon_min ag"
    using ih(5) replay_frame(3) [OF r] by simp
  ultimately show ?case using ih(3,4) by blast
qed

lemma run_remembers:
  assumes "length (memory ag) + n \<le> memory_size ag"
  shows "run_calls tc ag (replicate n (Remember ex)) =
           Inr (replicate n Remembered, ag\<lparr>memory := memory ag @ replicate n ex\<rparr>)"
  using assms
proof (induction n arbitrary: ag)
  case 0
  then show ?case by simp
next
  case (Suc n)
  have r: "remember ag ex = ag\<lparr>memory := memory ag @ [ex]\<rparr>"
    using Suc.prems by (simp add: remember_def Let_def)
  have "length (memory (remember ag ex)) + n \<le> memory_size (remember ag ex)"
    using Suc.prems by (simp add: r)
  from Suc.IH [OF this]
  have "run_calls tc (remember ag ex) (replicate n (Remember ex)) =
          Inr (replicate n Remembered, ag\<lparr>memory := memory ag @ replicate (Suc n) ex\<rparr>)"
    by (simp add: r replicate_app_Cons_same)
  then show ?case by (simp add: apply_call_def)
qed

lemma example_run_remembers:
  "run_calls example_torch example_agent (replicate 64 (Remember example_experience))
     = Inr (replicate 64 Remembered, filled_agent)"
proof -
  have "length (memory example_agent) + 64 \<le> memory_size example_agent"
    by (simp add: example_agent_def init_agent_fields)
  from run_remembers [OF this, of example_torch example_experience]
  show ?thesis by (simp add: filled_agent_def example_agent_def init_agent_fields)
qed

lemma filled_agent_fields:
  "memory filled_agent = replicate 64 example_experience" "batch_size filled_agent = 64"
  "epsilon filled_agent = 1" "epsilon_min filled_agent = 1 / 100"
  "epsilon_decay filled_agent = 199 / 200"
  "target_network filled_agent = example_network" "q_network filled_agent = example_network"
  by (simp_all add: filled_agent_def example_agent_def init_agent_fields)

lemma trainings_remembered: "trainings (replicate n Remembered) = 0"
  by (induction n) (simp_all add: trainings_def)

lemma trainings_append: "trainings (rs1 @ rs2) = trainings rs1 + trainings rs2"
  by (simp add: trainings_def)

section \<open>The claims about the agent\<close>

text \<open>
  C5. After \<open>update_target_network\<close> the target network holds the online parameters, so
  its outputs are the online outputs on every observation; and whatever sequence of
  \<open>remember\<close>, \<open>act\<close> and \<open>replay\<close> calls follows, the target network's parameters (and so
  its outputs) are still those at the end.
\<close>

theorem target_network_synced:
  "forward (linear tc) (target_network (update_target_network ag)) x
     = forward (linear tc) (q_network (update_target_network ag)) x
   \<and> (run_calls tc (update_target_network ag) cs = Inr (rs, ag') \<longrightarrow>
        target_network ag' = target_network (update_target_network ag)
      \<and> target_network ag' = q_network ag
      \<and> forward (linear tc) (target_network ag') x = forward (linear tc) (q_network ag) x)"
proof (intro conjI impI)
  show "forward (linear tc) (target_network (update_target_network ag)) x
     = forward (linear tc) (q_network (update_target_network ag)) x"
    by (simp add: update_target_network_def)
next
  assume r: "run_calls tc (update_target_network ag) cs = Inr (rs, ag')"
  from run_calls_target [OF r]
  show t: "target_network ag' = target_network (update_target_network ag)" .
  then show q: "target_network ag' = q_network ag" by (simp add: update_target_network_def)
  then show "forward (linear tc) (target_network ag') x = forward (linear tc) (q_network ag) x"
    by simp
qed

theorem target_network_synced_witness:
  "(\<exists>rs ag'. run_calls example_torch (update_target_network example_agent)
        (replicate 64 (Remember example_experience)
           @ [Act [0] False 0 0, Replay example_sample]) = Inr (rs, ag')
      \<and> trainings rs = 1
      \<and> fc4 (q_network ag') = 1
      \<and> target_network ag' = example_network
      \<and> forward (linear example_torch) (target_network ag') [0] = [0])"
proof -
  have u: "update_target_network example_agent = example_agent"
    by (simp add: example_agent_def init_agent_def update_target_network_def)
  from example_replay [OF filled_agent_fields(1,2)] obtain loss ag' where
    rp: "replay example_torch filled_agent example_sample = Inr (Some loss, ag')"
    and ag': "ag' = filled_agent\<lparr>q_network := (q_network filled_agent)\<lparr>fc4 := Suc (fc4 (q_network filled_agent))\<rparr>,
                   optimizer := Suc (optimizer filled_agent),
                   epsilon := (if epsilon filled_agent > epsilon_min filled_agent
                               then epsilon filled_agent * epsilon_decay filled_agent
                               else epsilon filled_agent)\<rparr>"
    by blast
  have a: "act example_torch filled_agent [0] False 0 0 = Inr 0"
    by (simp add: act_def argmax_def forward_def example_torch_def list_max_def)
  have c1: "apply_call example_torch filled_agent (Act [0] False 0 0) = Inr (Chose 0, filled_agent)"
    by (simp add: apply_call_def bind_err_def a)
  have c2: "apply_call example_torch filled_agent (Replay example_sample)
      = Inr (Replayed (Some loss), ag')"
    by (simp add: apply_call_def bind_err_def rp)
  have r2: "run_calls example_torch filled_agent [Act [0] False 0 0, Replay example_sample]
      = Inr ([Chose 0, Replayed (Some loss)], ag')"
    by (simp add: c1 c2)
  from run_calls_append [OF example_run_remembers r2]
  have run: "run_calls example_torch (update_target_network example_agent)
        (replicate 64 (Remember example_experience)
           @ [Act [0] False 0 0, Replay example_sample])
      = Inr (replicate 64 Remembered @ [Chose 0, Replayed (Some loss)], ag')"
    by (simp only: u)
  have tr: "trainings (replicate 64 Remembered @ [Chose 0, Replayed (Some loss)]) = 1"
    by (simp add: trainings_append trainings_remembered) (simp add: trainings_def)
  have q: "fc4 (q_network ag') = 1"
    by (simp add: ag' filled_agent_fields example_network_def)
  from target_network_synced [of example_torch example_agent "[0]"
      "replicate 64 (Remember example_experience) @ [Act [0] False 0 0, Replay example_sample]"
      "replicate 64 Remembered @ [Chose 0, Replayed (Some loss)]" ag'] run
  have "target_network ag' = q_network example_agent
      \<and> forward (linear example_torch) (target_network ag') [0]
          = forward (linear example_torch) (q_network example_agent) [0]"
    by blast
  moreover have "q_network example_agent = example_network"
    by (simp add: example_agent_def init_agent_fields)
  moreover have "forward (linear example_torch) example_network [0] = [0]"
    by (simp add: forward_def example_torch_def example_network_def)
  ultimately have "target_network ag' = example_network"
    "forward (linear example_torch) (target_network ag') [0] = [0]"
    by simp_all
  with run tr q show ?thesis by blast
qed

text \<open>
  C7. With fewer than \<open>batch_size\<close> entries in the memory, \<open>replay\<close> returns \<open>None\<close>, raises
  nothing, and the agent after the call is the agent before it (online and target
  parameters, optimizer state, memory, epsilon and all). A \<open>replay\<close> that returns \<open>None\<close>
  changes nothing; one that changes epsilon has trained (returned a loss, on a memory of
  at least \<open>batch_size\<close> entries) and has multiplied epsilon by \<open>epsilon_decay\<close>. The
  constructor sets \<open>batch_size = 64\<close> and \<open>epsilon_decay = 0.995\<close>.
\<close>

theorem replay_underfilled_noop:
  "(length (memory ag) < batch_size ag \<longrightarrow> replay tc ag smp = Inr (None, ag))
   \<and> (replay tc ag smp = Inr (None, ag') \<longrightarrow> ag' = ag)
   \<and> (replay tc ag smp = Inr (res, ag') \<and> epsilon ag' \<noteq> epsilon ag \<longrightarrow>
        res \<noteq> None \<and> batch_size ag \<le> length (memory ag)
      \<and> epsilon ag' = epsilon ag * epsilon_decay ag)
   \<and> batch_size (init_agent ssize asize q0 t0 o0 :: ('l, 'o) agent) = 64
   \<and> epsilon_decay (init_agent ssize asize q0 t0 o0 :: ('l, 'o) agent) = 0.995"
proof (intro conjI impI)
  assume "length (memory ag) < batch_size ag"
  then show "replay tc ag smp = Inr (None, ag)" by (rule replay_underfilled)
next
  assume "replay tc ag smp = Inr (None, ag')"
  from replay_cases [OF this] show "ag' = ag" by simp
next
  assume h: "replay tc ag smp = Inr (res, ag') \<and> epsilon ag' \<noteq> epsilon ag"
  then have r: "replay tc ag smp = Inr (res, ag')" and n: "epsilon ag' \<noteq> epsilon ag"
    by simp_all
  from replay_cases [OF r] n
  show "res \<noteq> None" and "batch_size ag \<le> length (memory ag)" by auto
  from replay_frame(7) [OF r] n show "epsilon ag' = epsilon ag * epsilon_decay ag"
    by (simp split: if_splits)
next
  show "batch_size (init_agent ssize asize q0 t0 o0 :: ('l, 'o) agent) = 64"
    by (rule init_agent_fields)
  show "epsilon_decay (init_agent ssize asize q0 t0 o0 :: ('l, 'o) agent) = 0.995"
    by (simp add: init_agent_fields)
qed

theorem replay_underfilled_noop_witness:
  "length (memory example_agent) < batch_size example_agent
   \<and> replay example_torch example_agent example_sample = Inr (None, example_agent)
   \<and> (\<exists>res ag'. replay example_torch filled_agent example_sample = Inr (res, ag')
         \<and> epsilon ag' \<noteq> epsilon filled_agent
         \<and> res \<noteq> None
         \<and> batch_size filled_agent \<le> length (memory filled_agent)
         \<and> epsilon ag' = 0.995)"
proof -
  have l: "length (memory example_agent) < batch_size example_agent"
    by (simp add: example_agent_def init_agent_fields)
  from replay_underfilled_noop [of example_agent example_torch example_sample]
  have "length (memory example_agent) < batch_size example_agent \<longrightarrow>
      replay example_torch example_agent example_sample = Inr (None, example_agent)"
    by (rule conjunct1)
  with l have n: "replay example_torch example_agent example_sample = Inr (None, example_agent)"
    by (rule rev_mp)
  from example_replay [OF filled_agent_fields(1,2)] obtain loss ag' where
    rp: "replay example_torch filled_agent example_sample = Inr (Some loss, ag')"
    and ag': "ag' = filled_agent\<lparr>q_network := (q_network filled_agent)\<lparr>fc4 := Suc (fc4 (q_network filled_agent))\<rparr>,
                   optimizer := Suc (optimizer filled_agent),
                   epsilon := (if epsilon filled_agent > epsilon_min filled_agent
                               then epsilon filled_agent * epsilon_decay filled_agent
                               else epsilon filled_agent)\<rparr>"
    by blast
  have e: "epsilon ag' = 199 / 200" by (simp add: ag' filled_agent_fields)
  then have ne: "epsilon ag' \<noteq> epsilon filled_agent" by (simp add: filled_agent_fields)
  from replay_underfilled_noop [of filled_agent example_torch example_sample ag' "Some loss"]
  have "replay example_torch filled_agent example_sample = Inr (Some loss, ag')
        \<and> epsilon ag' \<noteq> epsilon filled_agent \<longrightarrow>
      Some loss \<noteq> None \<and> batch_size filled_agent \<le> length (memory filled_agent)
      \<and> epsilon ag' = epsilon filled_agent * epsilon_decay filled_agent"
    by (rule conjunct2 [THEN conjunct2, THEN conjunct1])
  with rp ne have bs: "batch_size filled_agent \<le> length (memory filled_agent)"
    by blast
  have e': "epsilon ag' = 0.995" using e by simp
  have s: "Some loss \<noteq> None" by simp
  from l n rp ne s bs e' show ?thesis by blast
qed

text \<open>
  C10. From the constructor's \<open>epsilon = 1.0\<close>, after any sequence of calls that returns,
  epsilon is \<open>0.995 ^ min n 919\<close>, where \<open>n\<close> counts the \<open>replay\<close> calls that trained. So
  epsilon stays above \<open>epsilon_min * epsilon_decay = 0.00995\<close> (and at most 1); it is still
  above the floor 0.01 after 918 trainings and strictly below it from the 919th on. An
  agent whose epsilon is at or below \<open>epsilon_min\<close> keeps its epsilon through \<open>replay\<close>.
\<close>

theorem epsilon_floor:
  "(run_calls tc (init_agent ssize asize q0 t0 o0) cs = Inr (rs, ag) \<longrightarrow>
       epsilon ag = (199 / 200) ^ min (trainings rs) 919
     \<and> 0.00995 < epsilon ag \<and> epsilon ag \<le> 1
     \<and> (trainings rs \<le> 918 \<longrightarrow> 0.01 < epsilon ag)
     \<and> (919 \<le> trainings rs \<longrightarrow> epsilon ag < 0.01))
   \<and> epsilon_min (init_agent ssize asize q0 t0 o0) * epsilon_decay (init_agent ssize asize q0 t0 o0)
       = 0.00995
   \<and> (epsilon ag0 \<le> epsilon_min ag0 \<and> replay tc ag0 smp = Inr (res, ag1) \<longrightarrow>
        epsilon ag1 = epsilon ag0)"
proof (intro conjI impI)
  define q :: real where "q = 199 / 200"
  assume r: "run_calls tc (init_agent ssize asize q0 t0 o0) cs = Inr (rs, ag)"
  note f = init_agent_run_epsilon [OF q_def r]
  show "epsilon ag = (199 / 200) ^ min (trainings rs) 919" using f(1) by (simp only: q_def)
  have "1 / 100 * q = 0.00995" by (simp add: q_def)
  with f(2) show "0.00995 < epsilon ag" by simp
  show "epsilon ag \<le> 1" by (rule f(3))
  {
    assume "trainings rs \<le> 918"
    from f(5) [OF this] show "0.01 < epsilon ag" by simp
  }
  {
    assume "919 \<le> trainings rs"
    from f(4) [OF this] show "epsilon ag < 0.01" by simp
  }
next
  show "epsilon_min (init_agent ssize asize q0 t0 o0) * epsilon_decay (init_agent ssize asize q0 t0 o0)
       = 0.00995"
    by (simp add: init_agent_fields)
next
  assume "epsilon ag0 \<le> epsilon_min ag0 \<and> replay tc ag0 smp = Inr (res, ag1)"
  then have le: "epsilon ag0 \<le> epsilon_min ag0" and r: "replay tc ag0 smp = Inr (res, ag1)"
    by simp_all
  from replay_frame(7) [OF r] le show "epsilon ag1 = epsilon ag0" by simp
qed

theorem epsilon_floor_witness:
  "(\<exists>rs ag. run_calls example_torch (init_agent 1 1 example_network example_network 0)
        (replicate 64 (Remember example_experience) @ replicate 919 (Replay example_sample))
        = Inr (rs, ag)
      \<and> trainings rs = 919 \<and> epsilon ag < 0.01 \<and> 0.00995 < epsilon ag
      \<and> epsilon ag \<le> epsilon_min ag
      \<and> (\<exists>res ag1. replay example_torch ag example_sample = Inr (res, ag1)
            \<and> epsilon ag1 = epsilon ag))
   \<and> (\<exists>rs ag. run_calls example_torch (init_agent 1 1 example_network example_network 0)
        (replicate 64 (Remember example_experience)) = Inr (rs, ag)
      \<and> trainings rs \<le> 918 \<and> 0.01 < epsilon ag)"
proof -
  let ?a = "init_agent 1 1 example_network example_network (0::nat)"
  have a: "?a = example_agent" by (simp add: example_agent_def)
  have r0: "run_calls example_torch ?a (replicate 64 (Remember example_experience))
      = Inr (replicate 64 Remembered, filled_agent)"
    by (simp only: a example_run_remembers)
  from example_run_replays [OF filled_agent_fields(1,2), of 919] obtain rs ag where
    r1: "run_calls example_torch filled_agent (replicate 919 (Replay example_sample)) = Inr (rs, ag)"
    and t1: "trainings rs = 919"
    and mem: "memory ag = replicate 64 example_experience" "batch_size ag = 64"
    and m: "epsilon_min ag = epsilon_min filled_agent" by blast
  from run_calls_append [OF r0 r1]
  have run: "run_calls example_torch ?a
      (replicate 64 (Remember example_experience) @ replicate 919 (Replay example_sample))
      = Inr (replicate 64 Remembered @ rs, ag)" .
  have tr: "trainings (replicate 64 Remembered @ rs) = 919"
    by (simp add: trainings_append trainings_remembered t1)
  from example_replay [OF mem] obtain res ag1 where
    rp: "replay example_torch ag example_sample = Inr (res, ag1)" by blast
  note t = epsilon_floor [of example_torch 1 1 example_network example_network 0
      "replicate 64 (Remember example_experience) @ replicate 919 (Replay example_sample)"
      "replicate 64 Remembered @ rs" ag ag example_sample res ag1]
  have ge: "919 \<le> trainings (replicate 64 Remembered @ rs)" by (simp only: tr)
  from t have "run_calls example_torch ?a
        (replicate 64 (Remember example_experience) @ replicate 919 (Replay example_sample))
        = Inr (replicate 64 Remembered @ rs, ag) \<longrightarrow>
       epsilon ag = (199 / 200) ^ min (trainings (replicate 64 Remembered @ rs)) 919
     \<and> 0.00995 < epsilon ag \<and> epsilon ag \<le> 1
     \<and> (trainings (replicate 64 Remembered @ rs) \<le> 918 \<longrightarrow> 0.01 < epsilon ag)
     \<and> (919 \<le> trainings (replicate 64 Remembered @ rs) \<longrightarrow> epsilon ag < 0.01)"
    by (rule conjunct1)
  with run have "0.00995 < epsilon ag
     \<and> (919 \<le> trainings (replicate 64 Remembered @ rs) \<longrightarrow> epsilon ag < 0.01)"
    by blast
  with ge have e: "epsilon ag < 0.01" "0.00995 < epsilon ag" by blast+
  from e(1) m have le: "epsilon ag \<le> epsilon_min ag" by (simp add: filled_agent_fields)
  from t have "epsilon ag \<le> epsilon_min ag \<and> replay example_torch ag example_sample = Inr (res, ag1)
      \<longrightarrow> epsilon ag1 = epsilon ag"
    by (rule conjunct2 [THEN conjunct2])
  with le rp have k: "epsilon ag1 = epsilon ag" by blast
  have tr0: "trainings (replicate 64 Remembered) \<le> 918" by (simp add: trainings_remembered)
  note t0 = epsilon_floor [of example_torch 1 1 example_network example_network 0
      "replicate 64 (Remember example_experience)" "replicate 64 Remembered" filled_agent]
  from t0 have "run_calls example_torch ?a (replicate 64 (Remember example_experience))
        = Inr (replicate 64 Remembered, filled_agent) \<longrightarrow>
       epsilon filled_agent = (199 / 200) ^ min (trainings (replicate 64 Remembered)) 919
     \<and> 0.00995 < epsilon filled_agent \<and> epsilon filled_agent \<le> 1
     \<and> (trainings (replicate 64 Remembered) \<le> 918 \<longrightarrow> 0.01 < epsilon filled_agent)
     \<and> (919 \<le> trainings (replicate 64 Remembered) \<longrightarrow> epsilon filled_agent < 0.01)"
    by (rule conjunct1)
  with r0 tr0 have e0: "0.01 < epsilon filled_agent" by blast
  have p1: "\<exists>rs ag. run_calls example_torch ?a
        (replicate 64 (Remember example_experience) @ replicate 919 (Replay example_sample))
        = Inr (rs, ag)
      \<and> trainings rs = 919 \<and> epsilon ag < 0.01 \<and> 0.00995 < epsilon ag
      \<and> epsilon ag \<le> epsilon_min ag
      \<and> (\<exists>res ag1. replay example_torch ag example_sample = Inr (res, ag1)
            \<and> epsilon ag1 = epsilon ag)"
    using run tr e le rp k by blast
  have p2: "\<exists>rs ag. run_calls example_torch ?a
        (replicate 64 (Remember example_experience)) = Inr (rs, ag)
      \<and> trainings rs \<le> 918 \<and> 0.01 < epsilon ag"
    using r0 tr0 e0 by blast
  from p1 p2 show ?thesis by (rule conjI)
qed

section \<open>The analysis of an A/B test\<close>








end
